theory Spec2Isabelle
  imports Main
begin

section \<open>JavaScript values\<close>

text \<open>
  The values that flow through the engine as data, raised values and request bodies.
  \<open>JError name message\<close> is an object with a \<open>name\<close> and a \<open>message\<close>
  (\<open>new Error(m)\<close> is \<open>JError ''Error'' m\<close>, a fetch abort is
  \<open>JError ''AbortError'' m\<close>); \<open>JObj i\<close> is any other object, by identity.
  Numbers are integers here: NaN and fractions are outside the model.
\<close>

datatype jsval =
    JNull
  | JUndefined
  | JBool bool
  | JNum int
  | JStr string
  | JError string string
  | JObj nat

fun truthy :: "jsval \<Rightarrow> bool" where
  "truthy JNull = False"
| "truthy JUndefined = False"
| "truthy (JBool b) = b"
| "truthy (JNum n) = (n \<noteq> 0)"
| "truthy (JStr s) = (s \<noteq> [])"
| "truthy (JError n m) = True"
| "truthy (JObj i) = True"

text \<open>\<open>isAbortError\<close>: a truthy object whose \<open>name\<close> is \<open>AbortError\<close>.\<close>

fun isAbortError :: "jsval \<Rightarrow> bool" where
  "isAbortError (JError n m) = (n = ''AbortError'')"
| "isAbortError v = False"

text \<open>Truthiness of an optional string property (\<open>undefined\<close> and \<open>""\<close> are falsy).\<close>

fun truthyStr :: "string option \<Rightarrow> bool" where
  "truthyStr None = False"
| "truthyStr (Some s) = (s \<noteq> [])"

text \<open>\<open>x || d\<close> for an optional string property.\<close>

fun strOr :: "string option \<Rightarrow> string \<Rightarrow> string" where
  "strOr None d = d"
| "strOr (Some s) d = (if s \<noteq> [] then s else d)"

text \<open>Decimal rendering of a non-negative integer, as a template literal prints it.\<close>

definition digitChar :: "nat \<Rightarrow> char" where
  "digitChar d = char_of (48 + d)"

fun stringOfNat :: "nat \<Rightarrow> string" where
  "stringOfNat n = (if n < 10 then [digitChar n] else stringOfNat (n div 10) @ [digitChar (n mod 10)])"

declare stringOfNat.simps [simp del]

section \<open>The data model (types.ts)\<close>

record queryResult =
  data :: jsval
  error :: jsval
  isSuccess :: bool
  isError :: bool
  isCanceled :: bool
  isLoading :: bool

record queryConfig =
  enabled :: "bool option"
  baseUrl :: "string option"
  queryKey :: "string option"
  httpMethod :: "string option"
  headers :: "(string \<times> string) list option"
  body :: "jsval option"
  timeout :: "int option"

definition emptyConfig :: queryConfig where
  "emptyConfig = \<lparr> enabled = None, baseUrl = None, queryKey = None, httpMethod = None,
     headers = None, body = None, timeout = None \<rparr>"

text \<open>
  An endpoint handed to \<open>ActiveQuery\<close>: a URL string or a fetcher function (by identity).
  A caller may also pass a \<open>FetcherDefinition\<close> \<open>{key, fn}\<close>.
\<close>

datatype endpoint = Url string | Fetcher nat

datatype endpointArg = ArgUrl string | ArgFetcher nat | ArgDefinition string nat

section \<open>Callbacks, microtasks and the observable trace\<close>

text \<open>
  The closures that the code puts on an \<open>ActiveQuery\<close>'s lists: a callback registered
  directly, the two relays installed by the \<open>QueryObserver\<close> constructor, and the
  registry removal installed by \<open>EqueryClient.useFetch\<close>. User callbacks are opaque and
  inert: calling one appends an event to the trace; it neither throws nor calls back
  into the engine.
\<close>

datatype completeCb = UserComplete nat | RelayComplete nat | CacheDelete string

datatype errorCb = UserError nat | RelayError nat

datatype continuation = ThenCont nat | CatchCont nat | FinallyCont nat

datatype promiseState = Pending | Fulfilled queryResult

datatype microtask =
    DeliverSnapshot nat completeCb
  | DeliverError errorCb jsval
  | ObserverSnapshot nat queryResult
  | ObserverError nat jsval
  | DeliverCanceled "nat list"
  | Reaction nat continuation queryResult

datatype event =
    WorkInvoked nat
  | CompleteCalled nat queryResult
  | ErrorCalled nat jsval
  | ThenFulfilled nat queryResult
  | CatchPassed nat queryResult
  | FinallyDone nat jsval

section \<open>ActiveQuery, QueryObserver and the client state\<close>

text \<open>
  \<open>abortController\<close>: \<open>None\<close> is \<open>null\<close>, \<open>Some b\<close> a controller whose
  \<open>signal.aborted\<close> is \<open>b\<close>. The fields \<open>didTimeout\<close>, \<open>timerArmed\<close> and
  \<open>timeoutError\<close> are the local variables of the running \<open>execute()\<close> call
  (\<open>timerArmed\<close>: the timer of \<open>timeoutId\<close> is pending); \<open>awaiting\<close> says that the
  asynchronous body is suspended at its \<open>await\<close>; \<open>reactions\<close> are the continuations that
  \<open>then\<close> attached to the pending \<open>promise\<close>; \<open>lazyKey\<close> is \<open>Some k\<close> once the
  client has replaced \<open>execute\<close> by its lazily registering wrapper for key \<open>k\<close>.
\<close>

record active_query =
  endpoint :: endpoint
  config :: queryConfig
  resultState :: queryResult
  completeCallbacks :: "completeCb list"
  errorCallbacks :: "errorCb list"
  abortController :: "bool option"
  promise :: "promiseState option"
  refCount :: int
  didTimeout :: bool
  timerArmed :: bool
  timeoutError :: "jsval option"
  awaiting :: bool
  reactions :: "(nat \<times> continuation) list"
  lazyKey :: "string option"

record query_observer =
  activeQuery :: nat
  isObserverCanceled :: bool
  wrappedCompleteCallbacks :: "nat list"
  wrappedErrorCallbacks :: "nat list"

text \<open>
  Objects are referred to by their index in the store; an \<open>ActiveQuery\<close>'s index is its
  \<open>id\<close> (a fresh \<open>Symbol\<close> per instance). \<open>activeQueries\<close> is the client's
  \<open>Map<string, ActiveQuery>\<close>.
\<close>

record state =
  queries :: "active_query list"
  observers :: "query_observer list"
  clientConfig :: queryConfig
  activeQueries :: "string \<Rightarrow> nat option"
  microtasks :: "microtask list"
  trace :: "event list"

definition initState :: "queryConfig \<Rightarrow> state" where
  "initState cfg = \<lparr> queries = [], observers = [], clientConfig = cfg,
     activeQueries = (\<lambda>k. None), microtasks = [], trace = [] \<rparr>"

definition updQ :: "nat \<Rightarrow> (active_query \<Rightarrow> active_query) \<Rightarrow> state \<Rightarrow> state" where
  "updQ q f s = s\<lparr> queries := (queries s)[q := f (queries s ! q)] \<rparr>"

definition updO :: "nat \<Rightarrow> (query_observer \<Rightarrow> query_observer) \<Rightarrow> state \<Rightarrow> state" where
  "updO ob f s = s\<lparr> observers := (observers s)[ob := f (observers s ! ob)] \<rparr>"

definition emit :: "event list \<Rightarrow> state \<Rightarrow> state" where
  "emit es s = s\<lparr> trace := trace s @ es \<rparr>"

definition enqueue :: "microtask \<Rightarrow> state \<Rightarrow> state" where
  "enqueue t s = s\<lparr> microtasks := microtasks s @ [t] \<rparr>"

section \<open>ActiveQuery (Query.ts)\<close>

subsection \<open>Calling a callback\<close>

text \<open>
  The completion relay of an observer forwards the result to the observer's own callbacks
  unless the observer is canceled; the registry removal deletes the key from the client's
  map.
\<close>

fun call_complete :: "completeCb \<Rightarrow> queryResult \<Rightarrow> state \<Rightarrow> state" where
  "call_complete (UserComplete n) r s = emit [CompleteCalled n r] s"
| "call_complete (RelayComplete ob) r s =
     (if isObserverCanceled (observers s ! ob) then s
      else emit (map (\<lambda>n. CompleteCalled n r) (wrappedCompleteCallbacks (observers s ! ob))) s)"
| "call_complete (CacheDelete k) r s = s\<lparr> activeQueries := (activeQueries s)(k := None) \<rparr>"

fun call_error :: "errorCb \<Rightarrow> jsval \<Rightarrow> state \<Rightarrow> state" where
  "call_error (UserError n) e s = emit [ErrorCalled n e] s"
| "call_error (RelayError ob) e s =
     (if isObserverCanceled (observers s ! ob) then s
      else emit (map (\<lambda>n. ErrorCalled n e) (wrappedErrorCallbacks (observers s ! ob))) s)"

subsection \<open>Construction and reference counting\<close>

definition initialResult :: queryResult where
  "initialResult = \<lparr> data = JNull, error = JNull, isSuccess = False, isError = False,
     isCanceled = False, isLoading = False \<rparr>"

definition initialQuery :: "endpoint \<Rightarrow> queryConfig \<Rightarrow> active_query" where
  "initialQuery ep cfg = \<lparr> endpoint = ep, config = cfg, resultState = initialResult,
     completeCallbacks = [], errorCallbacks = [], abortController = None, promise = None,
     refCount = 0, didTimeout = False, timerArmed = False, timeoutError = None,
     awaiting = False, reactions = [], lazyKey = None \<rparr>"

definition addRef :: "nat \<Rightarrow> state \<Rightarrow> state" where
  "addRef q s = updQ q (\<lambda>a. a\<lparr> refCount := refCount a + 1 \<rparr>) s"

text \<open>\<open>abortController.abort()\<close>: the signal's \<open>aborted\<close> becomes true.\<close>

definition abort :: "nat \<Rightarrow> state \<Rightarrow> state" where
  "abort q s = updQ q (\<lambda>a. a\<lparr> abortController := Some True \<rparr>) s"

definition hardCancel :: "nat \<Rightarrow> state \<Rightarrow> state" where
  "hardCancel q s =
     (if isLoading (resultState (queries s ! q)) \<and> abortController (queries s ! q) \<noteq> None
      then abort q s else s)"

definition removeRef :: "nat \<Rightarrow> state \<Rightarrow> state" where
  "removeRef q s =
     (let s1 = updQ q (\<lambda>a. a\<lparr> refCount := refCount a - 1 \<rparr>) s
      in if refCount (queries s1 ! q) \<le> 0 then hardCancel q s1 else s1)"

subsection \<open>Listener fan-out\<close>

definition notifyComplete :: "nat \<Rightarrow> state \<Rightarrow> state" where
  "notifyComplete q s =
     updQ q (\<lambda>a. a\<lparr> completeCallbacks := [], errorCallbacks := [] \<rparr>)
       (fold (\<lambda>cb st. call_complete cb (resultState (queries st ! q)) st)
          (completeCallbacks (queries s ! q)) s)"

definition notifyError :: "nat \<Rightarrow> jsval \<Rightarrow> state \<Rightarrow> state" where
  "notifyError q e s = fold (\<lambda>cb st. call_error cb e st) (errorCallbacks (queries s ! q)) s"

subsection \<open>The asynchronous body of execute\<close>

text \<open>
  The promise returned by the asynchronous body is fulfilled with \<open>resultState\<close>; the
  continuations that \<open>then\<close> attached to it are queued as microtasks.
\<close>

definition resolvePromise :: "nat \<Rightarrow> state \<Rightarrow> state" where
  "resolvePromise q s =
     (let a = queries s ! q; r = resultState a
      in updQ q (\<lambda>a. a\<lparr> promise := Some (Fulfilled r), awaiting := False, reactions := [] \<rparr>)
           (s\<lparr> microtasks := microtasks s @ map (\<lambda>(ob, c). Reaction ob c r) (reactions a) \<rparr>))"

text \<open>The \<open>catch\<close> block, entered with the raised value \<open>err\<close>.\<close>

definition catchBlock :: "nat \<Rightarrow> jsval \<Rightarrow> state \<Rightarrow> state" where
  "catchBlock q err s =
     (let s1 = updQ q (\<lambda>a. a\<lparr> timerArmed := False,
                 resultState := (resultState a)\<lparr> isLoading := False \<rparr> \<rparr>) s;
          a = queries s1 ! q;
          s2 = (case (didTimeout a, timeoutError a) of
                  (True, Some te) \<Rightarrow>
                    notifyError q te
                      (updQ q (\<lambda>a. a\<lparr> resultState := (resultState a)\<lparr> isError := True, error := te \<rparr> \<rparr>) s1)
                | _ \<Rightarrow>
                    if isAbortError err \<or> abortController a = Some True
                    then updQ q (\<lambda>a. a\<lparr> resultState := (resultState a)\<lparr> isCanceled := True \<rparr> \<rparr>) s1
                    else notifyError q err
                      (updQ q (\<lambda>a. a\<lparr> resultState := (resultState a)\<lparr> isError := True, error := err \<rparr> \<rparr>) s1))
      in notifyComplete q s2)"

text \<open>The rest of the \<open>try\<close> block once the awaited work has produced \<open>v\<close>.\<close>

definition tryRest :: "nat \<Rightarrow> jsval \<Rightarrow> state \<Rightarrow> state" where
  "tryRest q v s =
     (let s1 = updQ q (\<lambda>a. a\<lparr> timerArmed := False \<rparr>) s;
          a = queries s1 ! q
      in if abortController a = Some True
         then catchBlock q
                (case (didTimeout a, timeoutError a) of
                   (True, Some te) \<Rightarrow> te
                 | _ \<Rightarrow> JError ''Error'' ''Aborted'') s1
         else notifyComplete q
                (updQ q (\<lambda>a. a\<lparr> resultState := (resultState a)\<lparr> data := v, isSuccess := True,
                    isLoading := False \<rparr> \<rparr>) s1))"

text \<open>
  What the awaited unit of work does: it produces a value or raises one. For a URL
  endpoint the work is the fetch call followed by the status check and \<open>response.json()\<close>.
\<close>

datatype outcome = Returned jsval | Threw jsval

datatype fetchResult = FetchFailed jsval | Response bool nat outcome

fun httpOutcome :: "fetchResult \<Rightarrow> outcome" where
  "httpOutcome (FetchFailed e) = Threw e"
| "httpOutcome (Response ok status parsed) =
     (if \<not> ok then Threw (JError ''Error'' (''request failed with status '' @ stringOfNat status))
      else parsed)"

text \<open>The asynchronous body resumes when the awaited work settles.\<close>

definition settle :: "nat \<Rightarrow> outcome \<Rightarrow> state \<Rightarrow> state" where
  "settle q out s =
     (if awaiting (queries s ! q)
      then resolvePromise q (case out of Returned v \<Rightarrow> tryRest q v s | Threw e \<Rightarrow> catchBlock q e s)
      else s)"

text \<open>The timer set by \<open>execute()\<close> expires.\<close>

definition timerFires :: "nat \<Rightarrow> state \<Rightarrow> state" where
  "timerFires q s =
     (if timerArmed (queries s ! q)
      then (let s1 = updQ q (\<lambda>a. a\<lparr> didTimeout := True, timerArmed := False \<rparr>) s
            in if abortController (queries s1 ! q) \<noteq> None then abort q s1 else s1)
      else s)"

subsection \<open>execute\<close>

definition hasTimeout :: "queryConfig \<Rightarrow> bool" where
  "hasTimeout cfg = (case timeout cfg of None \<Rightarrow> False | Some ms \<Rightarrow> ms > 0)"

definition mkTimeoutError :: "queryConfig \<Rightarrow> jsval option" where
  "mkTimeoutError cfg =
     (case timeout cfg of
        None \<Rightarrow> None
      | Some ms \<Rightarrow> if ms > 0
                  then Some (JError ''Error'' (''timeout of '' @ stringOfNat (nat ms) @ ''ms exceeded''))
                  else None)"

text \<open>
  \<open>beginExecution\<close> is the part of \<open>execute()\<close> before the asynchronous body starts: a
  fresh controller, the timer and its error when a positive timeout is configured, and
  the loading state. \<open>execute q sync\<close>: \<open>sync = Some e\<close> when the call of the endpoint itself raises \<open>e\<close>
  before anything is awaited (the \<open>catch\<close> block then runs inside \<open>execute()\<close>);
  \<open>sync = None\<close> when the call returns and the body suspends at its \<open>await\<close>.
\<close>

definition beginExecution :: "active_query \<Rightarrow> active_query" where
  "beginExecution a =
     a\<lparr> abortController := Some False,
        didTimeout := False,
        timerArmed := hasTimeout (config a),
        timeoutError := mkTimeoutError (config a),
        resultState := (resultState a)\<lparr> isLoading := True, isCanceled := False \<rparr> \<rparr>"

definition execute :: "nat \<Rightarrow> jsval option \<Rightarrow> state \<Rightarrow> state" where
  "execute q sync s =
     (if isLoading (resultState (queries s ! q)) \<and> promise (queries s ! q) \<noteq> None then s
      else
        let s1 = updQ q beginExecution s;
            s2 = emit [WorkInvoked q] s1
        in case sync of
             None \<Rightarrow> updQ q (\<lambda>a. a\<lparr> promise := Some Pending, awaiting := True, reactions := [] \<rparr>) s2
           | Some e \<Rightarrow> resolvePromise q (catchBlock q e (updQ q (\<lambda>a. a\<lparr> reactions := [] \<rparr>) s2)))"

definition newActiveQuery :: "endpoint \<Rightarrow> queryConfig \<Rightarrow> jsval option \<Rightarrow> state \<Rightarrow> nat \<times> state" where
  "newActiveQuery ep cfg sync s =
     (let q = length (queries s);
          s1 = s\<lparr> queries := queries s @ [initialQuery ep cfg] \<rparr>
      in (q, if enabled cfg \<noteq> Some False then execute q sync s1 else s1))"

subsection \<open>onComplete and onError\<close>

definition onComplete :: "nat \<Rightarrow> completeCb \<Rightarrow> state \<Rightarrow> state" where
  "onComplete q cb s =
     (let s1 = updQ q (\<lambda>a. a\<lparr> completeCallbacks := completeCallbacks a @ [cb] \<rparr>) s;
          r = resultState (queries s1 ! q)
      in if \<not> isLoading r \<and> (isSuccess r \<or> isError r \<or> isCanceled r)
         then enqueue (DeliverSnapshot q cb) s1 else s1)"

definition onError :: "nat \<Rightarrow> errorCb \<Rightarrow> state \<Rightarrow> state" where
  "onError q cb s =
     (let s1 = updQ q (\<lambda>a. a\<lparr> errorCallbacks := errorCallbacks a @ [cb] \<rparr>) s;
          r = resultState (queries s1 ! q)
      in if \<not> isLoading r \<and> isError r \<and> truthy (error r)
         then enqueue (DeliverError cb (error r)) s1 else s1)"

definition getCallbackCount :: "nat \<Rightarrow> state \<Rightarrow> nat" where
  "getCallbackCount q s =
     length (completeCallbacks (queries s ! q)) + length (errorCallbacks (queries s ! q))"

section \<open>QueryObserver (Query.ts)\<close>

definition newObserver :: "nat \<Rightarrow> state \<Rightarrow> nat \<times> state" where
  "newObserver q s =
     (let ob = length (observers s);
          s1 = addRef q (s\<lparr> observers := observers s @
                 [\<lparr> activeQuery = q, isObserverCanceled = False,
                    wrappedCompleteCallbacks = [], wrappedErrorCallbacks = [] \<rparr>] \<rparr>)
      in (ob, onError q (RelayError ob) (onComplete q (RelayComplete ob) s1)))"

text \<open>
  \<open>this.activeQuery.execute()\<close> runs the instance's own \<open>execute\<close> when the client has
  installed one (see \<open>EqueryClient.useFetch\<close>): it registers the query under its key
  unless some query is registered there already, and in both cases goes on to the
  original \<open>execute\<close>.
\<close>

definition executeDispatch :: "nat \<Rightarrow> jsval option \<Rightarrow> state \<Rightarrow> state" where
  "executeDispatch q sync s =
     (case lazyKey (queries s ! q) of
        None \<Rightarrow> execute q sync s
      | Some k \<Rightarrow>
          if activeQueries s k \<noteq> None then execute q sync s
          else execute q sync
                 (onComplete q (CacheDelete k) (s\<lparr> activeQueries := (activeQueries s)(k \<mapsto> q) \<rparr>)))"

definition obs_execute :: "nat \<Rightarrow> jsval option \<Rightarrow> state \<Rightarrow> state" where
  "obs_execute ob sync s = executeDispatch (activeQuery (observers s ! ob)) sync s"

definition obs_onComplete :: "nat \<Rightarrow> nat \<Rightarrow> state \<Rightarrow> state" where
  "obs_onComplete ob n s =
     (let s1 = updO ob (\<lambda>x. x\<lparr> wrappedCompleteCallbacks := wrappedCompleteCallbacks x @ [n] \<rparr>) s;
          x = observers s1 ! ob;
          r = resultState (queries s1 ! activeQuery x)
      in if \<not> isLoading r \<and> \<not> isObserverCanceled x \<and> (isSuccess r \<or> isError r \<or> isCanceled r)
         then enqueue (ObserverSnapshot n r) s1 else s1)"

definition obs_onError :: "nat \<Rightarrow> nat \<Rightarrow> state \<Rightarrow> state" where
  "obs_onError ob n s =
     (let s1 = updO ob (\<lambda>x. x\<lparr> wrappedErrorCallbacks := wrappedErrorCallbacks x @ [n] \<rparr>) s;
          x = observers s1 ! ob;
          r = resultState (queries s1 ! activeQuery x)
      in if \<not> isLoading r \<and> \<not> isObserverCanceled x \<and> isError r \<and> truthy (error r)
         then enqueue (ObserverError n (error r)) s1 else s1)"

definition canceledState :: queryResult where
  "canceledState = \<lparr> data = JNull, error = JNull, isSuccess = False, isError = False,
     isCanceled = True, isLoading = False \<rparr>"

definition obs_cancel :: "nat \<Rightarrow> state \<Rightarrow> state" where
  "obs_cancel ob s =
     (if isObserverCanceled (observers s ! ob) then s
      else
        let s1 = updO ob (\<lambda>x. x\<lparr> isObserverCanceled := True \<rparr>) s;
            s2 = removeRef (activeQuery (observers s1 ! ob)) s1;
            callbacks = wrappedCompleteCallbacks (observers s2 ! ob);
            s3 = updO ob (\<lambda>x. x\<lparr> wrappedCompleteCallbacks := [], wrappedErrorCallbacks := [] \<rparr>) s2
        in enqueue (DeliverCanceled callbacks) s3)"

text \<open>
  The promise view. \<open>obs_then\<close> returns \<open>Some e\<close> when the promise it hands back is
  rejected with \<open>e\<close> on the spot (no promise yet: the query was never executed), and
  \<open>None\<close> when the continuation is chained onto the query's promise. \<open>catch\<close> and
  \<open>finally\<close> make the same test and then go through \<open>then\<close>.
\<close>

definition notExecutedError :: jsval where
  "notExecutedError = JError ''Error'' ''Query has not been executed''"

definition obs_then :: "nat \<Rightarrow> continuation \<Rightarrow> state \<Rightarrow> jsval option \<times> state" where
  "obs_then ob c s =
     (let q = activeQuery (observers s ! ob)
      in case promise (queries s ! q) of
           None \<Rightarrow> (Some notExecutedError, s)
         | Some Pending \<Rightarrow> (None, updQ q (\<lambda>a. a\<lparr> reactions := reactions a @ [(ob, c)] \<rparr>) s)
         | Some (Fulfilled r) \<Rightarrow> (None, enqueue (Reaction ob c r) s))"

definition obs_catch :: "nat \<Rightarrow> nat \<Rightarrow> state \<Rightarrow> jsval option \<times> state" where
  "obs_catch ob k s =
     (case promise (queries s ! activeQuery (observers s ! ob)) of
        None \<Rightarrow> (Some notExecutedError, s)
      | Some p \<Rightarrow> obs_then ob (CatchCont k) s)"

definition obs_finally :: "nat \<Rightarrow> nat \<Rightarrow> state \<Rightarrow> jsval option \<times> state" where
  "obs_finally ob k s =
     (case promise (queries s ! activeQuery (observers s ! ob)) of
        None \<Rightarrow> (Some notExecutedError, s)
      | Some p \<Rightarrow> obs_then ob (FinallyCont k) s)"

text \<open>
  The value that the wrapper inside \<open>then\<close> hands to the continuation when the query's
  promise is fulfilled with \<open>res\<close>: the observer's flag is read at that moment.
\<close>

definition surfaced :: "nat \<Rightarrow> queryResult \<Rightarrow> state \<Rightarrow> queryResult" where
  "surfaced ob res s = (if isObserverCanceled (observers s ! ob) then canceledState else res)"

fun runReaction :: "nat \<Rightarrow> continuation \<Rightarrow> queryResult \<Rightarrow> state \<Rightarrow> state" where
  "runReaction ob (ThenCont k) res s = emit [ThenFulfilled k (surfaced ob res s)] s"
| "runReaction ob (CatchCont k) res s = emit [CatchPassed k (surfaced ob res s)] s"
| "runReaction ob (FinallyCont k) res s = emit [FinallyDone k (data (surfaced ob res s))] s"

definition getQueryId :: "nat \<Rightarrow> state \<Rightarrow> nat" where
  "getQueryId ob s = activeQuery (observers s ! ob)"

definition getObserverCallbackCount :: "nat \<Rightarrow> state \<Rightarrow> nat" where
  "getObserverCallbackCount ob s =
     length (wrappedCompleteCallbacks (observers s ! ob)) + length (wrappedErrorCallbacks (observers s ! ob))"

text \<open>The standalone \<open>useFetch\<close>: never registered anywhere.\<close>

fun unwrapEndpoint :: "endpointArg \<Rightarrow> endpoint" where
  "unwrapEndpoint (ArgUrl u) = Url u"
| "unwrapEndpoint (ArgFetcher f) = Fetcher f"
| "unwrapEndpoint (ArgDefinition k f) = Fetcher f"

definition useFetch :: "endpointArg \<Rightarrow> queryConfig \<Rightarrow> jsval option \<Rightarrow> state \<Rightarrow> nat \<times> state" where
  "useFetch ep cfg sync s =
     (let (q, s1) = newActiveQuery (unwrapEndpoint ep) cfg sync s in newObserver q s1)"

section \<open>The microtask queue\<close>

fun runMicrotask :: "microtask \<Rightarrow> state \<Rightarrow> state" where
  "runMicrotask (DeliverSnapshot q cb) s = call_complete cb (resultState (queries s ! q)) s"
| "runMicrotask (DeliverError cb e) s = call_error cb e s"
| "runMicrotask (ObserverSnapshot n r) s = emit [CompleteCalled n r] s"
| "runMicrotask (ObserverError n e) s = emit [ErrorCalled n e] s"
| "runMicrotask (DeliverCanceled ns) s = emit (map (\<lambda>n. CompleteCalled n canceledState) ns) s"
| "runMicrotask (Reaction ob c r) s = runReaction ob c r s"

definition runNext :: "state \<Rightarrow> state" where
  "runNext s = (case microtasks s of [] \<Rightarrow> s | t # ts \<Rightarrow> runMicrotask t (s\<lparr> microtasks := ts \<rparr>))"

text \<open>Running the queue to the end; no task of this engine queues another one.\<close>

definition drain :: "state \<Rightarrow> state" where
  "drain s = fold runMicrotask (microtasks s) (s\<lparr> microtasks := [] \<rparr>)"

section \<open>EqueryClient (Client.ts)\<close>

text \<open>Object spread of two optional properties: the later one wins when it is there.\<close>

definition orElse :: "'a option \<Rightarrow> 'a option \<Rightarrow> 'a option" where
  "orElse a b = (case b of None \<Rightarrow> a | Some x \<Rightarrow> Some x)"

fun setHeader :: "string \<Rightarrow> string \<Rightarrow> (string \<times> string) list \<Rightarrow> (string \<times> string) list" where
  "setHeader k v [] = [(k, v)]"
| "setHeader k v ((k', v') # hs) = (if k = k' then (k, v) # hs else (k', v') # setHeader k v hs)"

definition spreadHeaders ::
  "(string \<times> string) list option \<Rightarrow> (string \<times> string) list option \<Rightarrow> (string \<times> string) list" where
  "spreadHeaders a b =
     fold (\<lambda>(k, v). setHeader k v) (case b of None \<Rightarrow> [] | Some hs \<Rightarrow> hs)
       (fold (\<lambda>(k, v). setHeader k v) (case a of None \<Rightarrow> [] | Some hs \<Rightarrow> hs) [])"

definition mergeConfig :: "queryConfig \<Rightarrow> queryConfig \<Rightarrow> queryConfig" where
  "mergeConfig c1 c2 =
     \<lparr> enabled = orElse (enabled c1) (enabled c2),
       baseUrl = orElse (baseUrl c1) (baseUrl c2),
       queryKey = orElse (queryKey c1) (queryKey c2),
       httpMethod = orElse (httpMethod c1) (httpMethod c2),
       headers = Some (spreadHeaders (headers c1) (headers c2)),
       body = orElse (body c1) (body c2),
       timeout = orElse (timeout c1) (timeout c2) \<rparr>"

definition setConfig :: "queryConfig \<Rightarrow> state \<Rightarrow> state" where
  "setConfig cfg s = s\<lparr> clientConfig := cfg \<rparr>"

definition updateConfig :: "queryConfig \<Rightarrow> state \<Rightarrow> state" where
  "updateConfig partial s = s\<lparr> clientConfig := mergeConfig (clientConfig s) partial \<rparr>"

text \<open>\<open>base.replace(/\/$/, "")\<close> and \<open>path.replace(/^\//, "")\<close>.\<close>

definition stripTrailingSlash :: "string \<Rightarrow> string" where
  "stripTrailingSlash b = (if b \<noteq> [] \<and> last b = CHR ''/'' then butlast b else b)"

definition stripLeadingSlash :: "string \<Rightarrow> string" where
  "stripLeadingSlash p = (case p of [] \<Rightarrow> [] | c # cs \<Rightarrow> if c = CHR ''/'' then cs else p)"

definition finalEndpoint :: "queryConfig \<Rightarrow> endpoint \<Rightarrow> endpoint" where
  "finalEndpoint merged ep =
     (case ep of
        Url u \<Rightarrow> (case baseUrl merged of
                    None \<Rightarrow> Url u
                  | Some b \<Rightarrow> if b \<noteq> [] then Url (stripTrailingSlash b @ ''/'' @ stripLeadingSlash u)
                             else Url u)
      | Fetcher f \<Rightarrow> Fetcher f)"

fun definitionKey :: "endpointArg \<Rightarrow> string option" where
  "definitionKey (ArgDefinition k f) = Some k"
| "definitionKey a = None"

text \<open>
  The deduplication key. \<open>stringify\<close> stands for \<open>JSON.stringify\<close> (\<open>None\<close> where it
  yields \<open>undefined\<close>).
\<close>

definition bodyStr :: "(jsval \<Rightarrow> string option) \<Rightarrow> queryConfig \<Rightarrow> string option" where
  "bodyStr stringify merged =
     (case body merged of
        None \<Rightarrow> Some []
      | Some b \<Rightarrow> if truthy b then stringify b else Some [])"

definition cacheKey ::
  "(jsval \<Rightarrow> string option) \<Rightarrow> queryConfig \<Rightarrow> string option \<Rightarrow> endpoint \<Rightarrow> string option" where
  "cacheKey stringify merged defKey ep =
     (if truthyStr (queryKey merged) then queryKey merged
      else if truthyStr defKey then defKey
      else case ep of
             Url u \<Rightarrow>
               Some (strOr (httpMethod merged) ''GET'' @ '':'' @ u
                     @ (case bodyStr stringify merged of
                          None \<Rightarrow> []
                        | Some b \<Rightarrow> if b \<noteq> [] then '':'' @ b else []))
           | Fetcher f \<Rightarrow> None)"

text \<open>
  \<open>lookupKey\<close> is the local variable \<open>cacheKey\<close> as both of its uses read it, through
  a truthiness test: the derived key when it is a non-empty string.
\<close>

definition lookupKey ::
  "(jsval \<Rightarrow> string option) \<Rightarrow> endpointArg \<Rightarrow> queryConfig \<Rightarrow> state \<Rightarrow> string option" where
  "lookupKey stringify ep cfg s =
     (let merged = mergeConfig (clientConfig s) cfg
      in case cacheKey stringify merged (definitionKey ep) (finalEndpoint merged (unwrapEndpoint ep)) of
           None \<Rightarrow> None
         | Some k \<Rightarrow> if k \<noteq> [] then Some k else None)"

definition client_useFetch ::
  "(jsval \<Rightarrow> string option) \<Rightarrow> endpointArg \<Rightarrow> queryConfig \<Rightarrow> jsval option \<Rightarrow> state \<Rightarrow> nat \<times> state" where
  "client_useFetch stringify ep cfg sync s =
     (let merged = mergeConfig (clientConfig s) cfg;
          fep = finalEndpoint merged (unwrapEndpoint ep);
          ck = lookupKey stringify ep cfg s
      in case (case ck of None \<Rightarrow> None | Some k \<Rightarrow> activeQueries s k) of
           Some existing \<Rightarrow> newObserver existing s
         | None \<Rightarrow>
             let (q, s1) = newActiveQuery fep merged sync s;
                 s2 = (case ck of
                         None \<Rightarrow> s1
                       | Some k \<Rightarrow>
                           if enabled merged \<noteq> Some False
                           then onComplete q (CacheDelete k) (s1\<lparr> activeQueries := (activeQueries s1)(k \<mapsto> q) \<rparr>)
                           else updQ q (\<lambda>a. a\<lparr> lazyKey := Some k \<rparr>) s1)
             in newObserver q s2)"

text \<open>What a URL endpoint's \<open>execute()\<close> passes to the fetch implementation.\<close>

record request =
  reqUrl :: string
  reqMethod :: string
  reqHeaders :: "(string \<times> string) list"
  reqBody :: "string option"

definition httpRequest :: "(jsval \<Rightarrow> string option) \<Rightarrow> string \<Rightarrow> queryConfig \<Rightarrow> request" where
  "httpRequest stringify u cfg =
     (let hs = (case headers cfg of None \<Rightarrow> [] | Some h \<Rightarrow> h);
          hasBody = (case body cfg of None \<Rightarrow> False | Some b \<Rightarrow> truthy b);
          hs' = (if hasBody \<and> \<not> truthyStr (map_of hs ''Content-Type'')
                 then setHeader ''Content-Type'' ''application/json'' hs else hs)
      in \<lparr> reqUrl = u,
           reqMethod = strOr (httpMethod cfg) ''GET'',
           reqHeaders = hs',
           reqBody = (case body cfg of None \<Rightarrow> None | Some b \<Rightarrow> if truthy b then stringify b else None) \<rparr>)"

section \<open>Runs of the engine\<close>

text \<open>
  What a caller holding the \<open>Query\<close> interface and the environment can do, one step at a
  time: calls on the client and on observers, the awaited work settling, a timer
  expiring, and the next microtask running. A caller can only name objects that exist.
\<close>

datatype action =
    AUseFetch endpointArg queryConfig "jsval option"
  | AStandalone endpointArg queryConfig "jsval option"
  | AExecute nat "jsval option"
  | AOnComplete nat nat
  | AOnError nat nat
  | ACancel nat
  | AThen nat continuation
  | ASettle nat outcome
  | ATimer nat
  | AMicrotask
  | ASetConfig queryConfig
  | AUpdateConfig queryConfig

fun step :: "(jsval \<Rightarrow> string option) \<Rightarrow> action \<Rightarrow> state \<Rightarrow> state" where
  "step js (AUseFetch ep cfg sync) s = snd (client_useFetch js ep cfg sync s)"
| "step js (AStandalone ep cfg sync) s = snd (useFetch ep cfg sync s)"
| "step js (AExecute ob sync) s = (if ob < length (observers s) then obs_execute ob sync s else s)"
| "step js (AOnComplete ob n) s = (if ob < length (observers s) then obs_onComplete ob n s else s)"
| "step js (AOnError ob n) s = (if ob < length (observers s) then obs_onError ob n s else s)"
| "step js (ACancel ob) s = (if ob < length (observers s) then obs_cancel ob s else s)"
| "step js (AThen ob c) s = (if ob < length (observers s) then snd (obs_then ob c s) else s)"
| "step js (ASettle q out) s = (if q < length (queries s) then settle q out s else s)"
| "step js (ATimer q) s = (if q < length (queries s) then timerFires q s else s)"
| "step js AMicrotask s = runNext s"
| "step js (ASetConfig cfg) s = setConfig cfg s"
| "step js (AUpdateConfig cfg) s = updateConfig cfg s"

definition run :: "(jsval \<Rightarrow> string option) \<Rightarrow> action list \<Rightarrow> state \<Rightarrow> state" where
  "run js acts s = fold (step js) acts s"

section \<open>Notions used in the statements\<close>

text \<open>The events that one callback of a fan-out produces, given the observers.\<close>

fun completeEvents :: "query_observer list \<Rightarrow> queryResult \<Rightarrow> completeCb \<Rightarrow> event list" where
  "completeEvents obs r (UserComplete n) = [CompleteCalled n r]"
| "completeEvents obs r (RelayComplete ob) =
     (if isObserverCanceled (obs ! ob) then []
      else map (\<lambda>n. CompleteCalled n r) (wrappedCompleteCallbacks (obs ! ob)))"
| "completeEvents obs r (CacheDelete k) = []"

fun errorEvents :: "query_observer list \<Rightarrow> jsval \<Rightarrow> errorCb \<Rightarrow> event list" where
  "errorEvents obs e (UserError n) = [ErrorCalled n e]"
| "errorEvents obs e (RelayError ob) =
     (if isObserverCanceled (obs ! ob) then []
      else map (\<lambda>n. ErrorCalled n e) (wrappedErrorCallbacks (obs ! ob)))"

definition completeFanout :: "nat \<Rightarrow> queryResult \<Rightarrow> state \<Rightarrow> event list" where
  "completeFanout q r s = concat (map (completeEvents (observers s) r) (completeCallbacks (queries s ! q)))"

definition errorFanout :: "nat \<Rightarrow> jsval \<Rightarrow> state \<Rightarrow> event list" where
  "errorFanout q e s = concat (map (errorEvents (observers s) e) (errorCallbacks (queries s ! q)))"

text \<open>The test that \<open>onComplete\<close> makes before it delivers to a late subscriber.\<close>

definition settled :: "queryResult \<Rightarrow> bool" where
  "settled r = (\<not> isLoading r \<and> (isSuccess r \<or> isError r \<or> isCanceled r))"



text \<open>The observer that the \<open>QueryObserver\<close> constructor creates on query \<open>q\<close>.\<close>

definition freshObserver :: "nat \<Rightarrow> query_observer" where
  "freshObserver q = \<lparr> activeQuery = q, isObserverCanceled = False,
     wrappedCompleteCallbacks = [], wrappedErrorCallbacks = [] \<rparr>"

text \<open>The observers of a query that have not been canceled.\<close>

definition liveObservers :: "nat \<Rightarrow> state \<Rightarrow> nat" where
  "liveObservers q s =
     length (filter (\<lambda>x. activeQuery x = q \<and> \<not> isObserverCanceled x) (observers s))"

definition tokenTriggered :: "nat \<Rightarrow> state \<Rightarrow> bool" where
  "tokenTriggered q s = (abortController (queries s ! q) = Some True)"

definition invocations :: "nat \<Rightarrow> state \<Rightarrow> nat" where
  "invocations q s = count_list (trace s) (WorkInvoked q)"

fun isWorkInvoked :: "event \<Rightarrow> bool" where
  "isWorkInvoked (WorkInvoked q) = True"
| "isWorkInvoked e = False"

definition totalInvocations :: "state \<Rightarrow> nat" where
  "totalInvocations s = length (filter isWorkInvoked (trace s))"

text \<open>
  The result that the \<open>catch\<close> block leaves for a raised value, and the one that the rest
  of the \<open>try\<close> block leaves for a produced value, as functions of the query at that
  moment (shown below to be what \<open>catchBlock\<close> and \<open>tryRest\<close> compute).
\<close>

definition catchResult :: "jsval \<Rightarrow> active_query \<Rightarrow> queryResult" where
  "catchResult err a =
     (case (didTimeout a, timeoutError a) of
        (True, Some te) \<Rightarrow> (resultState a)\<lparr> isLoading := False, isError := True, error := te \<rparr>
      | _ \<Rightarrow> if isAbortError err \<or> abortController a = Some True
             then (resultState a)\<lparr> isLoading := False, isCanceled := True \<rparr>
             else (resultState a)\<lparr> isLoading := False, isError := True, error := err \<rparr>)"

definition tryResult :: "jsval \<Rightarrow> active_query \<Rightarrow> queryResult" where
  "tryResult v a =
     (if abortController a = Some True
      then catchResult (case (didTimeout a, timeoutError a) of
                          (True, Some te) \<Rightarrow> te
                        | _ \<Rightarrow> JError ''Error'' ''Aborted'') a
      else (resultState a)\<lparr> data := v, isSuccess := True, isLoading := False \<rparr>)"

fun outcomeResult :: "outcome \<Rightarrow> active_query \<Rightarrow> queryResult" where
  "outcomeResult (Returned v) a = tryResult v a"
| "outcomeResult (Threw e) a = catchResult e a"

text \<open>
  The bookkeeping that every run of the engine maintains: an observer wraps a query that
  exists, the reference count of a query is the number of its observers that have not been
  canceled, a loading query has an abort controller, and the registry of the client points
  at queries that exist.
\<close>

definition consistent :: "state \<Rightarrow> bool" where
  "consistent s =
     ((\<forall>x \<in> set (observers s). activeQuery x < length (queries s))
      \<and> (\<forall>q < length (queries s).
            refCount (queries s ! q) = int (liveObservers q s)
          \<and> (isLoading (resultState (queries s ! q)) \<longrightarrow> abortController (queries s ! q) \<noteq> None))
      \<and> (\<forall>k q. activeQueries s k = Some q \<longrightarrow> q < length (queries s)))"

section \<open>Example runs\<close>

text \<open>
  A standalone query on a fetcher, still loading, with one observer that has registered
  completion callback 7 and error callback 8.
\<close>

definition exLoading :: state where
  "exLoading = obs_onError 0 8 (obs_onComplete 0 7
     (snd (useFetch (ArgFetcher 0) emptyConfig None (initState emptyConfig))))"

text \<open>The result of a successful execution that produced the string \<open>d\<close>.\<close>

definition dataResult :: "string \<Rightarrow> queryResult" where
  "dataResult d = \<lparr> data = JStr d, error = JNull, isSuccess = True, isError = False,
      isCanceled = False, isLoading = False \<rparr>"

text \<open>The error that \<open>execute()\<close> prepares for a timeout of 10 ms.\<close>

definition timeout10 :: jsval where
  "timeout10 = JError ''Error'' ''timeout of 10ms exceeded''"

text \<open>A \<open>JSON.stringify\<close> for runs whose requests carry no body.\<close>

definition noJson :: "jsval \<Rightarrow> string option" where
  "noJson v = None"

text \<open>The call options \<open>{enabled: false}\<close>.\<close>

definition manualConfig :: queryConfig where
  "manualConfig = emptyConfig\<lparr> enabled := Some False \<rparr>"

text \<open>The same with a timeout of 10 ms configured, after the timer has expired.\<close>

definition exTimedOut :: state where
  "exTimedOut = timerFires 0 (obs_onError 0 8 (obs_onComplete 0 7
     (snd (useFetch (ArgFetcher 0) (emptyConfig\<lparr> timeout := Some 10 \<rparr>) None (initState emptyConfig)))))"

text \<open>\<open>exLoading\<close> after its only observer has canceled.\<close>

definition exAborted :: state where
  "exAborted = obs_cancel 0 exLoading"


text \<open>Two \<open>useFetch\<close> calls of one client on the definition key \<open>k\<close>, and one completion
  callback on each observer (7 on the first, 9 on the second).\<close>

definition exShared :: state where
  "exShared = obs_onComplete 1 9 (obs_onComplete 0 7
     (snd (client_useFetch noJson (ArgDefinition ''k'' 0) emptyConfig None
       (snd (client_useFetch noJson (ArgDefinition ''k'' 0) emptyConfig None (initState emptyConfig))))))"


text \<open>Two \<open>useFetch\<close> calls of one client on the same URL, both with \<open>enabled: false\<close>.\<close>

definition exTwoCreated :: state where
  "exTwoCreated = snd (client_useFetch noJson (ArgUrl ''/resource'') manualConfig None
     (snd (client_useFetch noJson (ArgUrl ''/resource'') manualConfig None (initState emptyConfig))))"

text \<open>Then \<open>execute()\<close> on the first observer and on the second, before anything settles.\<close>

definition exTwoManual :: state where
  "exTwoManual = obs_execute 1 None (obs_execute 0 None exTwoCreated)"

text \<open>\<open>exLoading\<close> after the work succeeded and the microtask queue ran.\<close>

definition exSettled :: state where
  "exSettled = drain (settle 0 (Returned (JStr ''data'')) exLoading)"

text \<open>A completion callback registered on the settled query itself.\<close>

definition exLate :: state where
  "exLate = onComplete 0 (UserComplete 9) exSettled"




text \<open>
  A standalone query on a fetcher with a timeout of 10 ms, still loading: its single observer
  has registered completion callback 7 and error callback 8, the timer is armed.
\<close>

definition exArmed :: state where
  "exArmed = obs_onError 0 8 (obs_onComplete 0 7
     (snd (useFetch (ArgFetcher 0) (emptyConfig\<lparr> timeout := Some 10 \<rparr>) None (initState emptyConfig))))"

text \<open>The calls that lead to \<open>exArmed\<close>.\<close>

definition exArmedActions :: "action list" where
  "exArmedActions = [AStandalone (ArgFetcher 0) (emptyConfig\<lparr> timeout := Some 10 \<rparr>) None,
     AOnComplete 0 7, AOnError 0 8]"

text \<open>The calls that lead to \<open>exShared\<close>.\<close>

definition exSharedActions :: "action list" where
  "exSharedActions = [AUseFetch (ArgDefinition ''k'' 0) emptyConfig None,
     AUseFetch (ArgDefinition ''k'' 0) emptyConfig None, AOnComplete 0 7, AOnComplete 1 9]"

text \<open>The shared query after its first observer has been canceled: one live observer is left.\<close>

definition exOneLeft :: state where
  "exOneLeft = obs_cancel 0 exShared"

text \<open>\<open>exLoading\<close> after the work failed with the value \<open>boom\<close>.\<close>

definition exFailed :: state where
  "exFailed = settle 0 (Threw (JStr ''boom'')) exLoading"

text \<open>The failed query executed again through its observer.\<close>

definition exRerun :: state where
  "exRerun = obs_execute 0 None exFailed"

text \<open>What an aborted \<open>fetch\<close> rejects with: an error whose name is \<open>AbortError\<close>.\<close>

definition abortError :: jsval where
  "abortError = JError ''AbortError'' ''The operation was aborted''"

text \<open>The calls and events that lead to \<open>exRerun\<close>.\<close>

definition exRerunActions :: "action list" where
  "exRerunActions = [AStandalone (ArgFetcher 0) emptyConfig None, AOnComplete 0 7, AOnError 0 8,
     ASettle 0 (Threw (JStr ''boom'')), AExecute 0 None]"





section \<open>Basic facts about the state\<close>

lemma updQ_sel [simp]:
  "queries (updQ q f s) = (queries s)[q := f (queries s ! q)]"
  "observers (updQ q f s) = observers s"
  "clientConfig (updQ q f s) = clientConfig s"
  "activeQueries (updQ q f s) = activeQueries s"
  "microtasks (updQ q f s) = microtasks s"
  "trace (updQ q f s) = trace s"
  by (simp_all add: updQ_def)

lemma updO_sel [simp]:
  "queries (updO ob f s) = queries s"
  "observers (updO ob f s) = (observers s)[ob := f (observers s ! ob)]"
  "clientConfig (updO ob f s) = clientConfig s"
  "activeQueries (updO ob f s) = activeQueries s"
  "microtasks (updO ob f s) = microtasks s"
  "trace (updO ob f s) = trace s"
  by (simp_all add: updO_def)

lemma emit_sel [simp]:
  "queries (emit es s) = queries s"
  "observers (emit es s) = observers s"
  "clientConfig (emit es s) = clientConfig s"
  "activeQueries (emit es s) = activeQueries s"
  "microtasks (emit es s) = microtasks s"
  "trace (emit es s) = trace s @ es"
  by (simp_all add: emit_def)

lemma enqueue_sel [simp]:
  "queries (enqueue t s) = queries s"
  "observers (enqueue t s) = observers s"
  "clientConfig (enqueue t s) = clientConfig s"
  "activeQueries (enqueue t s) = activeQueries s"
  "microtasks (enqueue t s) = microtasks s @ [t]"
  "trace (enqueue t s) = trace s"
  by (simp_all add: enqueue_def)

lemma call_complete_sel [simp]:
  "queries (call_complete cb r s) = queries s"
  "observers (call_complete cb r s) = observers s"
  "clientConfig (call_complete cb r s) = clientConfig s"
  "microtasks (call_complete cb r s) = microtasks s"
  "trace (call_complete cb r s) = trace s @ completeEvents (observers s) r cb"
  by (cases cb; simp)+

lemma call_error_sel [simp]:
  "queries (call_error cb e s) = queries s"
  "observers (call_error cb e s) = observers s"
  "clientConfig (call_error cb e s) = clientConfig s"
  "activeQueries (call_error cb e s) = activeQueries s"
  "microtasks (call_error cb e s) = microtasks s"
  "trace (call_error cb e s) = trace s @ errorEvents (observers s) e cb"
  by (cases cb; simp)+

lemma fold_call_complete_sel [simp]:
  "queries (fold (\<lambda>cb st. call_complete cb (resultState (queries st ! q)) st) cbs s) = queries s"
  "observers (fold (\<lambda>cb st. call_complete cb (resultState (queries st ! q)) st) cbs s) = observers s"
  "clientConfig (fold (\<lambda>cb st. call_complete cb (resultState (queries st ! q)) st) cbs s) = clientConfig s"
  "microtasks (fold (\<lambda>cb st. call_complete cb (resultState (queries st ! q)) st) cbs s) = microtasks s"
  by (induction cbs arbitrary: s; simp)+

lemma fold_call_complete_trace:
  "trace (fold (\<lambda>cb st. call_complete cb (resultState (queries st ! q)) st) cbs s)
     = trace s @ concat (map (completeEvents (observers s) (resultState (queries s ! q))) cbs)"
  by (induction cbs arbitrary: s) simp_all

lemma fold_call_complete_registry:
  "activeQueries (fold (\<lambda>cb st. call_complete cb (resultState (queries st ! q)) st) cbs s) k
     = (if CacheDelete k \<in> set cbs then None else activeQueries s k)"
proof (induction cbs arbitrary: s)
  case Nil
  show ?case by simp
next
  case (Cons cb cbs)
  show ?case by (cases cb) (simp_all add: Cons.IH)
qed

lemma fold_call_error_sel [simp]:
  "queries (fold (\<lambda>cb st. call_error cb e st) cbs s) = queries s"
  "observers (fold (\<lambda>cb st. call_error cb e st) cbs s) = observers s"
  "clientConfig (fold (\<lambda>cb st. call_error cb e st) cbs s) = clientConfig s"
  "activeQueries (fold (\<lambda>cb st. call_error cb e st) cbs s) = activeQueries s"
  "microtasks (fold (\<lambda>cb st. call_error cb e st) cbs s) = microtasks s"
  by (induction cbs arbitrary: s; simp)+

lemma fold_call_error_trace:
  "trace (fold (\<lambda>cb st. call_error cb e st) cbs s)
     = trace s @ concat (map (errorEvents (observers s) e) cbs)"
  by (induction cbs arbitrary: s) simp_all

lemma notifyComplete_sel [simp]:
  "queries (notifyComplete q s) = (queries s)[q := (queries s ! q)\<lparr> completeCallbacks := [], errorCallbacks := [] \<rparr>]"
  "observers (notifyComplete q s) = observers s"
  "clientConfig (notifyComplete q s) = clientConfig s"
  "microtasks (notifyComplete q s) = microtasks s"
  "trace (notifyComplete q s) = trace s @ completeFanout q (resultState (queries s ! q)) s"
  "activeQueries (notifyComplete q s) k
     = (if CacheDelete k \<in> set (completeCallbacks (queries s ! q)) then None else activeQueries s k)"
  by (simp_all add: notifyComplete_def completeFanout_def fold_call_complete_trace
        fold_call_complete_registry)

lemma notifyError_sel [simp]:
  "queries (notifyError q e s) = queries s"
  "observers (notifyError q e s) = observers s"
  "clientConfig (notifyError q e s) = clientConfig s"
  "activeQueries (notifyError q e s) = activeQueries s"
  "microtasks (notifyError q e s) = microtasks s"
  "trace (notifyError q e s) = trace s @ errorFanout q e s"
  by (simp_all add: notifyError_def errorFanout_def fold_call_error_trace)

lemma fanout_updQ [simp]:
  "completeCallbacks (f (queries s ! q)) = completeCallbacks (queries s ! q) \<Longrightarrow> q < length (queries s) \<Longrightarrow>
     completeFanout q r (updQ q f s) = completeFanout q r s"
  "errorCallbacks (f (queries s ! q)) = errorCallbacks (queries s ! q) \<Longrightarrow> q < length (queries s) \<Longrightarrow>
     errorFanout q e (updQ q f s) = errorFanout q e s"
  by (simp_all add: completeFanout_def errorFanout_def)





lemma resolvePromise_sel [simp]:
  "queries (resolvePromise q s) = (queries s)[q := (queries s ! q)\<lparr> promise := Some (Fulfilled (resultState (queries s ! q))),
      awaiting := False, reactions := [] \<rparr>]"
  "observers (resolvePromise q s) = observers s"
  "clientConfig (resolvePromise q s) = clientConfig s"
  "activeQueries (resolvePromise q s) = activeQueries s"
  "microtasks (resolvePromise q s) = microtasks s @
      map (\<lambda>(ob, c). Reaction ob c (resultState (queries s ! q))) (reactions (queries s ! q))"
  "trace (resolvePromise q s) = trace s"
  by (simp_all add: resolvePromise_def Let_def)

lemma catchBlock_sel:
  assumes "q < length (queries s)"
  shows "queries (catchBlock q err s) = (queries s)[q := (queries s ! q)\<lparr>
            timerArmed := False,
            resultState := catchResult err (queries s ! q),
            completeCallbacks := [], errorCallbacks := [] \<rparr>]"
    and "observers (catchBlock q err s) = observers s"
    and "clientConfig (catchBlock q err s) = clientConfig s"
    and "microtasks (catchBlock q err s) = microtasks s"
    and "activeQueries (catchBlock q err s) k =
           (if CacheDelete k \<in> set (completeCallbacks (queries s ! q)) then None else activeQueries s k)"
  using assms by (simp_all add: catchBlock_def Let_def catchResult_def split: bool.splits option.splits)

lemma catchBlock_trace:
  assumes "q < length (queries s)"
  shows "trace (catchBlock q err s) =
     trace s @
     (case (didTimeout (queries s ! q), timeoutError (queries s ! q)) of
        (True, Some te) \<Rightarrow> errorFanout q te s
      | _ \<Rightarrow> if isAbortError err \<or> abortController (queries s ! q) = Some True
             then [] else errorFanout q err s)
     @ completeFanout q (catchResult err (queries s ! q)) s"
  using assms by (simp add: catchBlock_def Let_def catchResult_def completeFanout_def errorFanout_def split: bool.splits option.splits)

lemma catchBlock_frame [simp]:
  "length (queries (catchBlock q err s)) = length (queries s)"
  "observers (catchBlock q err s) = observers s"
  "clientConfig (catchBlock q err s) = clientConfig s"
  "microtasks (catchBlock q err s) = microtasks s"
  by (simp_all add: catchBlock_def Let_def split: bool.splits option.splits)



lemma catchResult_frame [simp]:
  "catchResult err (a\<lparr> timerArmed := x \<rparr>) = catchResult err a"
  by (simp add: catchResult_def split: bool.splits option.splits)

lemma tryRest_sel:
  assumes "q < length (queries s)"
  shows "queries (tryRest q v s) = (queries s)[q := (queries s ! q)\<lparr>
            timerArmed := False,
            resultState := tryResult v (queries s ! q),
            completeCallbacks := [], errorCallbacks := [] \<rparr>]"
    and "observers (tryRest q v s) = observers s"
    and "clientConfig (tryRest q v s) = clientConfig s"
    and "microtasks (tryRest q v s) = microtasks s"
    and "activeQueries (tryRest q v s) k =
           (if CacheDelete k \<in> set (completeCallbacks (queries s ! q)) then None else activeQueries s k)"
  using assms
  by (simp_all add: tryRest_def Let_def catchBlock_sel tryResult_def split: bool.splits option.splits)

lemma tryRest_frame [simp]:
  "length (queries (tryRest q v s)) = length (queries s)"
  "observers (tryRest q v s) = observers s"
  "clientConfig (tryRest q v s) = clientConfig s"
  "microtasks (tryRest q v s) = microtasks s"
  by (simp_all add: tryRest_def Let_def)


lemma tryRest_trace:
  assumes "q < length (queries s)"
  shows "trace (tryRest q v s) =
     trace s @
     (if abortController (queries s ! q) = Some True
      then (case (didTimeout (queries s ! q), timeoutError (queries s ! q)) of
              (True, Some te) \<Rightarrow> errorFanout q te s
            | _ \<Rightarrow> [])
      else [])
     @ completeFanout q (tryResult v (queries s ! q)) s"
  using assms
  by (simp add: tryRest_def Let_def catchBlock_trace tryResult_def
      completeFanout_def errorFanout_def split: bool.splits option.splits)

lemma settle_sel:
  assumes "q < length (queries s)" "awaiting (queries s ! q)"
  shows "queries (settle q out s) = (queries s)[q := (queries s ! q)\<lparr>
            timerArmed := False,
            resultState := outcomeResult out (queries s ! q),
            completeCallbacks := [], errorCallbacks := [],
            promise := Some (Fulfilled (outcomeResult out (queries s ! q))),
            awaiting := False, reactions := [] \<rparr>]"
    and "observers (settle q out s) = observers s"
    and "clientConfig (settle q out s) = clientConfig s"
    and "microtasks (settle q out s) = microtasks s @
           map (\<lambda>(ob, c). Reaction ob c (outcomeResult out (queries s ! q))) (reactions (queries s ! q))"
    and "activeQueries (settle q out s) k =
           (if CacheDelete k \<in> set (completeCallbacks (queries s ! q)) then None else activeQueries s k)"
  using assms
  by (cases out; simp add: settle_def catchBlock_sel tryRest_sel)+

lemma settle_frame [simp]:
  "length (queries (settle q out s)) = length (queries s)"
  "observers (settle q out s) = observers s"
  "clientConfig (settle q out s) = clientConfig s"
  by (cases out; simp add: settle_def)+


lemma abort_sel [simp]:
  "queries (abort q s) = (queries s)[q := (queries s ! q)\<lparr> abortController := Some True \<rparr>]"
  "observers (abort q s) = observers s"
  "clientConfig (abort q s) = clientConfig s"
  "activeQueries (abort q s) = activeQueries s"
  "microtasks (abort q s) = microtasks s"
  "trace (abort q s) = trace s"
  by (simp_all add: abort_def)

lemma addRef_sel [simp]:
  "queries (addRef q s) = (queries s)[q := (queries s ! q)\<lparr> refCount := refCount (queries s ! q) + 1 \<rparr>]"
  "observers (addRef q s) = observers s"
  "clientConfig (addRef q s) = clientConfig s"
  "activeQueries (addRef q s) = activeQueries s"
  "microtasks (addRef q s) = microtasks s"
  "trace (addRef q s) = trace s"
  by (simp_all add: addRef_def)

lemma hardCancel_sel [simp]:
  "observers (hardCancel q s) = observers s"
  "clientConfig (hardCancel q s) = clientConfig s"
  "activeQueries (hardCancel q s) = activeQueries s"
  "microtasks (hardCancel q s) = microtasks s"
  "trace (hardCancel q s) = trace s"
  "length (queries (hardCancel q s)) = length (queries s)"
  by (simp_all add: hardCancel_def)

lemma removeRef_sel [simp]:
  "observers (removeRef q s) = observers s"
  "clientConfig (removeRef q s) = clientConfig s"
  "activeQueries (removeRef q s) = activeQueries s"
  "microtasks (removeRef q s) = microtasks s"
  "trace (removeRef q s) = trace s"
  "length (queries (removeRef q s)) = length (queries s)"
  by (simp_all add: removeRef_def Let_def)

lemma removeRef_queries:
  assumes "q < length (queries s)"
  shows "queries (removeRef q s) =
     (if refCount (queries s ! q) - 1 \<le> 0 \<and> isLoading (resultState (queries s ! q))
          \<and> abortController (queries s ! q) \<noteq> None
      then (queries s)[q := (queries s ! q)\<lparr> refCount := refCount (queries s ! q) - 1,
                                             abortController := Some True \<rparr>]
      else (queries s)[q := (queries s ! q)\<lparr> refCount := refCount (queries s ! q) - 1 \<rparr>])"
  using assms by (auto simp add: removeRef_def hardCancel_def Let_def)

lemma timerFires_sel [simp]:
  "observers (timerFires q s) = observers s"
  "clientConfig (timerFires q s) = clientConfig s"
  "activeQueries (timerFires q s) = activeQueries s"
  "microtasks (timerFires q s) = microtasks s"
  "trace (timerFires q s) = trace s"
  "length (queries (timerFires q s)) = length (queries s)"
  by (simp_all add: timerFires_def Let_def)

lemma timerFires_queries:
  assumes "q < length (queries s)"
  shows "queries (timerFires q s) =
     (if timerArmed (queries s ! q)
      then (if abortController (queries s ! q) \<noteq> None
            then (queries s)[q := (queries s ! q)\<lparr> didTimeout := True, timerArmed := False,
                                                   abortController := Some True \<rparr>]
            else (queries s)[q := (queries s ! q)\<lparr> didTimeout := True, timerArmed := False \<rparr>])
      else queries s)"
  using assms by (auto simp add: timerFires_def Let_def)

lemma execute_async_sel:
  assumes "q < length (queries s)"
    "\<not> (isLoading (resultState (queries s ! q)) \<and> promise (queries s ! q) \<noteq> None)"
  shows "queries (execute q None s) = (queries s)[q := (beginExecution (queries s ! q))\<lparr>
            promise := Some Pending, awaiting := True, reactions := [] \<rparr>]"
    and "trace (execute q None s) = trace s @ [WorkInvoked q]"
    and "activeQueries (execute q None s) = activeQueries s"
    and "microtasks (execute q None s) = microtasks s"
  using assms by (auto simp add: execute_def Let_def)

lemma execute_noop:
  assumes "isLoading (resultState (queries s ! q))" "promise (queries s ! q) \<noteq> None"
  shows "execute q sync s = s"
  using assms by (simp add: execute_def)

lemma execute_frame [simp]:
  "observers (execute q sync s) = observers s"
  "clientConfig (execute q sync s) = clientConfig s"
  "length (queries (execute q sync s)) = length (queries s)"
  by (simp_all add: execute_def Let_def split: option.splits)



lemma onComplete_sel:
  "queries (onComplete q cb s) = (queries s)[q := (queries s ! q)\<lparr>
      completeCallbacks := completeCallbacks (queries s ! q) @ [cb] \<rparr>]"
  "observers (onComplete q cb s) = observers s"
  "clientConfig (onComplete q cb s) = clientConfig s"
  "activeQueries (onComplete q cb s) = activeQueries s"
  "trace (onComplete q cb s) = trace s"
  by (simp_all add: onComplete_def Let_def)

lemma onComplete_microtasks:
  assumes "q < length (queries s)"
  shows "microtasks (onComplete q cb s) =
     microtasks s @ (if settled (resultState (queries s ! q)) then [DeliverSnapshot q cb] else [])"
  using assms by (simp add: onComplete_def Let_def settled_def)

lemma onError_sel:
  "queries (onError q cb s) = (queries s)[q := (queries s ! q)\<lparr>
      errorCallbacks := errorCallbacks (queries s ! q) @ [cb] \<rparr>]"
  "observers (onError q cb s) = observers s"
  "clientConfig (onError q cb s) = clientConfig s"
  "activeQueries (onError q cb s) = activeQueries s"
  "trace (onError q cb s) = trace s"
  by (simp_all add: onError_def Let_def)

lemma onError_microtasks:
  assumes "q < length (queries s)"
  shows "microtasks (onError q cb s) =
     microtasks s @ (if \<not> isLoading (resultState (queries s ! q)) \<and> isError (resultState (queries s ! q))
                        \<and> truthy (error (resultState (queries s ! q)))
                     then [DeliverError cb (error (resultState (queries s ! q)))] else [])"
  using assms by (simp add: onError_def Let_def)

lemma newObserver_sel:
  "fst (newObserver q s) = length (observers s)"
  "observers (snd (newObserver q s)) = observers s @
      [\<lparr> activeQuery = q, isObserverCanceled = False,
         wrappedCompleteCallbacks = [], wrappedErrorCallbacks = [] \<rparr>]"
  "clientConfig (snd (newObserver q s)) = clientConfig s"
  "activeQueries (snd (newObserver q s)) = activeQueries s"
  "trace (snd (newObserver q s)) = trace s"
  "length (queries (snd (newObserver q s))) = length (queries s)"
  by (simp_all add: newObserver_def Let_def onComplete_sel onError_sel)

lemma newObserver_queries:
  assumes "q < length (queries s)"
  shows "queries (snd (newObserver q s)) = (queries s)[q := (queries s ! q)\<lparr>
      refCount := refCount (queries s ! q) + 1,
      completeCallbacks := completeCallbacks (queries s ! q) @ [RelayComplete (length (observers s))],
      errorCallbacks := errorCallbacks (queries s ! q) @ [RelayError (length (observers s))] \<rparr>]"
  using assms by (simp add: newObserver_def Let_def onComplete_sel onError_sel)

lemma newObserver_microtasks:
  assumes "q < length (queries s)"
  shows "microtasks (snd (newObserver q s)) = microtasks s
     @ (if settled (resultState (queries s ! q))
        then [DeliverSnapshot q (RelayComplete (length (observers s)))] else [])
     @ (if \<not> isLoading (resultState (queries s ! q)) \<and> isError (resultState (queries s ! q))
            \<and> truthy (error (resultState (queries s ! q)))
        then [DeliverError (RelayError (length (observers s))) (error (resultState (queries s ! q)))] else [])"
  using assms
  by (simp add: newObserver_def Let_def onComplete_sel onError_sel onComplete_microtasks onError_microtasks)

lemma newActiveQuery_fst [simp]: "fst (newActiveQuery ep cfg sync s) = length (queries s)"
  by (simp add: newActiveQuery_def Let_def)

lemma newActiveQuery_frame [simp]:
  "observers (snd (newActiveQuery ep cfg sync s)) = observers s"
  "clientConfig (snd (newActiveQuery ep cfg sync s)) = clientConfig s"
  "length (queries (snd (newActiveQuery ep cfg sync s))) = Suc (length (queries s))"
  by (simp_all add: newActiveQuery_def Let_def)

lemma newActiveQuery_manual:
  assumes "enabled cfg = Some False"
  shows "snd (newActiveQuery ep cfg sync s) = s\<lparr> queries := queries s @ [initialQuery ep cfg] \<rparr>"
  using assms by (simp add: newActiveQuery_def Let_def)

lemma initialQuery_idle [simp]:
  "isLoading (resultState (initialQuery ep cfg)) = False"
  "promise (initialQuery ep cfg) = None"
  by (simp_all add: initialQuery_def initialResult_def)

lemma newActiveQuery_async:
  assumes "enabled cfg \<noteq> Some False"
  shows "queries (snd (newActiveQuery ep cfg None s)) = queries s @
           [(beginExecution (initialQuery ep cfg))\<lparr> promise := Some Pending, awaiting := True, reactions := [] \<rparr>]"
    and "trace (snd (newActiveQuery ep cfg None s)) = trace s @ [WorkInvoked (length (queries s))]"
    and "activeQueries (snd (newActiveQuery ep cfg None s)) = activeQueries s"
    and "microtasks (snd (newActiveQuery ep cfg None s)) = microtasks s"
  using assms by (simp_all add: newActiveQuery_def Let_def execute_async_sel)

lemma client_useFetch_shared:
  assumes "lookupKey js ep cfg s = Some k" "activeQueries s k = Some q"
  shows "client_useFetch js ep cfg sync s = newObserver q s"
  using assms by (simp add: client_useFetch_def Let_def)

lemma client_useFetch_unkeyed:
  assumes "lookupKey js ep cfg s = None"
  shows "client_useFetch js ep cfg sync s =
     newObserver (length (queries s))
       (snd (newActiveQuery (finalEndpoint (mergeConfig (clientConfig s) cfg) (unwrapEndpoint ep))
               (mergeConfig (clientConfig s) cfg) sync s))"
  using assms by (simp add: client_useFetch_def Let_def split_def)

lemma client_useFetch_fresh_enabled:
  assumes "lookupKey js ep cfg s = Some k" "activeQueries s k = None"
    "enabled (mergeConfig (clientConfig s) cfg) \<noteq> Some False"
  shows "client_useFetch js ep cfg sync s =
     newObserver (length (queries s))
       (onComplete (length (queries s)) (CacheDelete k)
         ((snd (newActiveQuery (finalEndpoint (mergeConfig (clientConfig s) cfg) (unwrapEndpoint ep))
               (mergeConfig (clientConfig s) cfg) sync s))
           \<lparr> activeQueries := (activeQueries (snd (newActiveQuery
                 (finalEndpoint (mergeConfig (clientConfig s) cfg) (unwrapEndpoint ep))
                 (mergeConfig (clientConfig s) cfg) sync s)))(k \<mapsto> length (queries s)) \<rparr>))"
  using assms by (simp add: client_useFetch_def Let_def split_def)

lemma client_useFetch_fresh_manual:
  assumes "lookupKey js ep cfg s = Some k" "activeQueries s k = None"
    "enabled (mergeConfig (clientConfig s) cfg) = Some False"
  shows "client_useFetch js ep cfg sync s =
     newObserver (length (queries s))
       (updQ (length (queries s)) (\<lambda>a. a\<lparr> lazyKey := Some k \<rparr>)
         (s\<lparr> queries := queries s @ [initialQuery
               (finalEndpoint (mergeConfig (clientConfig s) cfg) (unwrapEndpoint ep))
               (mergeConfig (clientConfig s) cfg)] \<rparr>))"
  using assms by (simp add: client_useFetch_def Let_def split_def newActiveQuery_manual)


lemma settle_result:
  assumes "q < length (queries s)" "awaiting (queries s ! q)"
  shows "resultState (queries (settle q out s) ! q) = outcomeResult out (queries s ! q)"
  using assms by (simp add: settle_sel)

lemma useFetch_async:
  assumes "enabled cfg \<noteq> Some False"
  shows "fst (useFetch ep cfg None s) = length (observers s)"
    and "length (queries (snd (useFetch ep cfg None s))) = Suc (length (queries s))"
    and "queries (snd (useFetch ep cfg None s)) ! length (queries s) =
           (beginExecution (initialQuery (unwrapEndpoint ep) cfg))\<lparr>
              promise := Some Pending, awaiting := True, reactions := [], refCount := 1,
              completeCallbacks := [RelayComplete (length (observers s))],
              errorCallbacks := [RelayError (length (observers s))] \<rparr>"
    and "trace (snd (useFetch ep cfg None s)) = trace s @ [WorkInvoked (length (queries s))]"
  using assms
  by (simp_all add: useFetch_def split_def newActiveQuery_async newObserver_sel newObserver_queries
        beginExecution_def initialQuery_def)

lemma timeout_scenario:
  assumes "timeout cfg = Some ms" "ms > 0" "enabled cfg \<noteq> Some False"
  shows "resultState (queries (settle (length (queries s0)) out
            (timerFires (length (queries s0)) (snd (useFetch ep cfg None s0)))) ! length (queries s0))
         = \<lparr> data = JNull, error = JError ''Error'' (''timeout of '' @ stringOfNat (nat ms) @ ''ms exceeded''),
             isSuccess = False, isError = True, isCanceled = False, isLoading = False \<rparr>"
proof -
  let ?q = "length (queries s0)"
  let ?s1 = "snd (useFetch ep cfg None s0)"
  have len: "?q < length (queries ?s1)" by (simp add: useFetch_async(2)[OF assms(3)])
  note a1 = useFetch_async(3)[OF assms(3), of ep s0]
  have a2: "queries (timerFires ?q ?s1) ! ?q =
      (queries ?s1 ! ?q)\<lparr> didTimeout := True, timerArmed := False, abortController := Some True \<rparr>"
    using len assms(1,2)
    by (simp add: timerFires_queries a1 beginExecution_def hasTimeout_def initialQuery_def)
  have len2: "?q < length (queries (timerFires ?q ?s1))" using len by simp
  have aw: "awaiting (queries (timerFires ?q ?s1) ! ?q)" by (simp add: a2 a1)
  show ?thesis
    using assms(1,2)
    by (cases out)
       (simp_all add: settle_result[OF len2 aw] a2 a1 tryResult_def catchResult_def
          beginExecution_def mkTimeoutError_def initialQuery_def initialResult_def)
qed

lemma settle_trace:
  assumes "q < length (queries s)" "awaiting (queries s ! q)"
  shows "trace (settle q (Threw err) s) = trace (catchBlock q err s)"
    and "trace (settle q (Returned v) s) = trace (tryRest q v s)"
  using assms by (simp_all add: settle_def)

lemmas engine_defs =
  initState_def emptyConfig_def initialQuery_def initialResult_def canceledState_def
  updQ_def updO_def emit_def enqueue_def
  addRef_def abort_def hardCancel_def removeRef_def notifyComplete_def notifyError_def
  resolvePromise_def catchBlock_def tryRest_def settle_def timerFires_def
  hasTimeout_def mkTimeoutError_def beginExecution_def execute_def newActiveQuery_def
  onComplete_def onError_def newObserver_def executeDispatch_def obs_execute_def
  obs_onComplete_def obs_onError_def obs_cancel_def obs_then_def obs_catch_def obs_finally_def
  surfaced_def getQueryId_def useFetch_def runNext_def drain_def
  getCallbackCount_def totalInvocations_def invocations_def tokenTriggered_def
  completeFanout_def errorFanout_def Let_def

lemma stringOfNat_10: "stringOfNat 10 = ''10''"
  by code_simp

lemma ex_bool_simps [simp]: "\<exists>b. \<not> b" "\<exists>b::bool. b"
  by blast+

lemma exLoading_eq:
  "exLoading = \<lparr> queries =
      [\<lparr> endpoint = Fetcher 0, config = emptyConfig,
         resultState = initialResult\<lparr> isLoading := True \<rparr>,
         completeCallbacks = [RelayComplete 0], errorCallbacks = [RelayError 0],
         abortController = Some False, promise = Some Pending, refCount = 1,
         didTimeout = False, timerArmed = False, timeoutError = None, awaiting = True,
         reactions = [], lazyKey = None \<rparr>],
     observers = [\<lparr> activeQuery = 0, isObserverCanceled = False,
         wrappedCompleteCallbacks = [7], wrappedErrorCallbacks = [8] \<rparr>],
     clientConfig = emptyConfig, activeQueries = (\<lambda>k. None), microtasks = [],
     trace = [WorkInvoked 0] \<rparr>"
  by (simp add: exLoading_def engine_defs)

lemma exTimedOut_eq:
  "exTimedOut = \<lparr> queries =
      [\<lparr> endpoint = Fetcher 0, config = emptyConfig\<lparr> timeout := Some 10 \<rparr>,
         resultState = initialResult\<lparr> isLoading := True \<rparr>,
         completeCallbacks = [RelayComplete 0], errorCallbacks = [RelayError 0],
         abortController = Some True, promise = Some Pending, refCount = 1,
         didTimeout = True, timerArmed = False, timeoutError = Some timeout10, awaiting = True,
         reactions = [], lazyKey = None \<rparr>],
     observers = [\<lparr> activeQuery = 0, isObserverCanceled = False,
         wrappedCompleteCallbacks = [7], wrappedErrorCallbacks = [8] \<rparr>],
     clientConfig = emptyConfig, activeQueries = (\<lambda>k. None), microtasks = [],
     trace = [WorkInvoked 0] \<rparr>"
  by (simp add: exTimedOut_def engine_defs stringOfNat_10 timeout10_def)

lemma exAborted_eq:
  "exAborted = \<lparr> queries =
      [\<lparr> endpoint = Fetcher 0, config = emptyConfig,
         resultState = initialResult\<lparr> isLoading := True \<rparr>,
         completeCallbacks = [RelayComplete 0], errorCallbacks = [RelayError 0],
         abortController = Some True, promise = Some Pending, refCount = 0,
         didTimeout = False, timerArmed = False, timeoutError = None, awaiting = True,
         reactions = [], lazyKey = None \<rparr>],
     observers = [\<lparr> activeQuery = 0, isObserverCanceled = True,
         wrappedCompleteCallbacks = [], wrappedErrorCallbacks = [] \<rparr>],
     clientConfig = emptyConfig, activeQueries = (\<lambda>k. None), microtasks = [DeliverCanceled [7]],
     trace = [WorkInvoked 0] \<rparr>"
  by (simp add: exAborted_def exLoading_eq engine_defs)


lemma lookupKey_definition:
  "clientConfig s = emptyConfig \<Longrightarrow> k \<noteq> [] \<Longrightarrow>
     lookupKey js (ArgDefinition k f) emptyConfig s = Some k"
  by (simp add: lookupKey_def cacheKey_def mergeConfig_def orElse_def emptyConfig_def Let_def)

lemma exShared_eq:
  "exShared = \<lparr> queries =
      [\<lparr> endpoint = Fetcher 0, config = mergeConfig emptyConfig emptyConfig,
         resultState = initialResult\<lparr> isLoading := True \<rparr>,
         completeCallbacks = [CacheDelete ''k'', RelayComplete 0, RelayComplete 1],
         errorCallbacks = [RelayError 0, RelayError 1],
         abortController = Some False, promise = Some Pending, refCount = 2,
         didTimeout = False, timerArmed = False, timeoutError = None, awaiting = True,
         reactions = [], lazyKey = None \<rparr>],
     observers = [\<lparr> activeQuery = 0, isObserverCanceled = False,
         wrappedCompleteCallbacks = [7], wrappedErrorCallbacks = [] \<rparr>,
       \<lparr> activeQuery = 0, isObserverCanceled = False,
         wrappedCompleteCallbacks = [9], wrappedErrorCallbacks = [] \<rparr>],
     clientConfig = emptyConfig, activeQueries = (\<lambda>k. None)(''k'' \<mapsto> 0), microtasks = [],
     trace = [WorkInvoked 0] \<rparr>"
proof -
  let ?s0 = "initState emptyConfig"
  have k0: "lookupKey noJson (ArgDefinition ''k'' 0) emptyConfig ?s0 = Some ''k''"
    by (simp add: lookupKey_definition initState_def)
  have e: "enabled (mergeConfig (clientConfig ?s0) emptyConfig) \<noteq> Some False"
    by (simp add: mergeConfig_def initState_def emptyConfig_def orElse_def)
  have s1: "snd (client_useFetch noJson (ArgDefinition ''k'' 0) emptyConfig None ?s0) =
     \<lparr> queries =
      [\<lparr> endpoint = Fetcher 0, config = mergeConfig emptyConfig emptyConfig,
         resultState = initialResult\<lparr> isLoading := True \<rparr>,
         completeCallbacks = [CacheDelete ''k'', RelayComplete 0],
         errorCallbacks = [RelayError 0],
         abortController = Some False, promise = Some Pending, refCount = 1,
         didTimeout = False, timerArmed = False, timeoutError = None, awaiting = True,
         reactions = [], lazyKey = None \<rparr>],
     observers = [\<lparr> activeQuery = 0, isObserverCanceled = False,
         wrappedCompleteCallbacks = [], wrappedErrorCallbacks = [] \<rparr>],
     clientConfig = emptyConfig, activeQueries = (\<lambda>k. None)(''k'' \<mapsto> 0), microtasks = [],
     trace = [WorkInvoked 0] \<rparr>" (is "_ = ?s1")
    apply (subst client_useFetch_fresh_enabled[OF k0 _ e])
     apply (simp add: initState_def)
    apply (simp add: engine_defs finalEndpoint_def mergeConfig_def orElse_def spreadHeaders_def)
    done
  have k1: "lookupKey noJson (ArgDefinition ''k'' 0) emptyConfig ?s1 = Some ''k''"
    by (simp add: lookupKey_definition)
  have s2: "snd (client_useFetch noJson (ArgDefinition ''k'' 0) emptyConfig None ?s1) =
      snd (newObserver 0 ?s1)"
    by (subst client_useFetch_shared[OF k1]) simp_all
  show ?thesis
    unfolding exShared_def s1 s2 by (simp add: engine_defs)
qed


lemma lookupKey_manual_url:
  "clientConfig s = emptyConfig \<Longrightarrow>
     lookupKey js (ArgUrl ''/resource'') manualConfig s = Some ''GET:/resource''"
  by (simp add: lookupKey_def cacheKey_def mergeConfig_def orElse_def emptyConfig_def Let_def
      manualConfig_def finalEndpoint_def bodyStr_def)

lemma exTwoCreated_eq:
  "exTwoCreated = \<lparr> queries =
      [\<lparr> endpoint = Url ''/resource'', config = mergeConfig emptyConfig manualConfig,
         resultState = initialResult,
         completeCallbacks = [RelayComplete 0], errorCallbacks = [RelayError 0],
         abortController = None, promise = None, refCount = 1,
         didTimeout = False, timerArmed = False, timeoutError = None, awaiting = False,
         reactions = [], lazyKey = Some ''GET:/resource'' \<rparr>,
       \<lparr> endpoint = Url ''/resource'', config = mergeConfig emptyConfig manualConfig,
         resultState = initialResult,
         completeCallbacks = [RelayComplete 1], errorCallbacks = [RelayError 1],
         abortController = None, promise = None, refCount = 1,
         didTimeout = False, timerArmed = False, timeoutError = None, awaiting = False,
         reactions = [], lazyKey = Some ''GET:/resource'' \<rparr>],
     observers = [\<lparr> activeQuery = 0, isObserverCanceled = False,
         wrappedCompleteCallbacks = [], wrappedErrorCallbacks = [] \<rparr>,
       \<lparr> activeQuery = 1, isObserverCanceled = False,
         wrappedCompleteCallbacks = [], wrappedErrorCallbacks = [] \<rparr>],
     clientConfig = emptyConfig, activeQueries = (\<lambda>k. None), microtasks = [],
     trace = [] \<rparr>"
proof -
  let ?s0 = "initState emptyConfig"
  have k0: "lookupKey noJson (ArgUrl ''/resource'') manualConfig ?s0 = Some ''GET:/resource''"
    by (simp add: lookupKey_manual_url initState_def)
  have m: "enabled (mergeConfig emptyConfig manualConfig) = Some False"
       "finalEndpoint (mergeConfig emptyConfig manualConfig) (Url ''/resource'') = Url ''/resource''"
    by (simp_all add: mergeConfig_def manualConfig_def emptyConfig_def orElse_def finalEndpoint_def)
  have s1: "snd (client_useFetch noJson (ArgUrl ''/resource'') manualConfig None ?s0) =
     \<lparr> queries =
      [\<lparr> endpoint = Url ''/resource'', config = mergeConfig emptyConfig manualConfig,
         resultState = initialResult,
         completeCallbacks = [RelayComplete 0], errorCallbacks = [RelayError 0],
         abortController = None, promise = None, refCount = 1,
         didTimeout = False, timerArmed = False, timeoutError = None, awaiting = False,
         reactions = [], lazyKey = Some ''GET:/resource'' \<rparr>],
     observers = [\<lparr> activeQuery = 0, isObserverCanceled = False,
         wrappedCompleteCallbacks = [], wrappedErrorCallbacks = [] \<rparr>],
     clientConfig = emptyConfig, activeQueries = (\<lambda>k. None), microtasks = [],
     trace = [] \<rparr>" (is "_ = ?s1")
    apply (subst client_useFetch_fresh_manual[OF k0])
      apply (simp_all add: initState_def m)
    apply (simp add: engine_defs)
    done
  have k1: "lookupKey noJson (ArgUrl ''/resource'') manualConfig ?s1 = Some ''GET:/resource''"
    by (simp add: lookupKey_manual_url)
  show ?thesis
    unfolding exTwoCreated_def s1
    apply (subst client_useFetch_fresh_manual[OF k1])
      apply (simp_all add: m)
    apply (simp add: engine_defs)
    done
qed

lemma exSettled_eq:
  "exSettled = \<lparr> queries =
      [\<lparr> endpoint = Fetcher 0, config = emptyConfig,
         resultState = dataResult ''data'',
         completeCallbacks = [], errorCallbacks = [],
         abortController = Some False, promise = Some (Fulfilled (dataResult ''data'')), refCount = 1,
         didTimeout = False, timerArmed = False, timeoutError = None, awaiting = False,
         reactions = [], lazyKey = None \<rparr>],
     observers = [\<lparr> activeQuery = 0, isObserverCanceled = False,
         wrappedCompleteCallbacks = [7], wrappedErrorCallbacks = [8] \<rparr>],
     clientConfig = emptyConfig, activeQueries = (\<lambda>k. None), microtasks = [],
     trace = [WorkInvoked 0, CompleteCalled 7 (dataResult ''data'')] \<rparr>"
  by (simp add: exSettled_def exLoading_eq engine_defs dataResult_def fun_eq_iff)

lemma exLate_eq:
  "exLate = exSettled\<lparr> queries := [(queries exSettled ! 0)\<lparr> completeCallbacks := [UserComplete 9] \<rparr>],
      microtasks := [DeliverSnapshot 0 (UserComplete 9)] \<rparr>"
  by (simp add: exLate_def exSettled_eq engine_defs dataResult_def)












lemma catchResult_frame2 [simp]:
  "catchResult err (a\<lparr> reactions := r \<rparr>) = catchResult err a"
  "catchResult err (a\<lparr> promise := p \<rparr>) = catchResult err a"
  "catchResult err (a\<lparr> awaiting := w \<rparr>) = catchResult err a"
  "catchResult err (a\<lparr> refCount := n \<rparr>) = catchResult err a"
  "catchResult err (a\<lparr> completeCallbacks := cc \<rparr>) = catchResult err a"
  "catchResult err (a\<lparr> errorCallbacks := ec \<rparr>) = catchResult err a"
  "catchResult err (a\<lparr> lazyKey := lk \<rparr>) = catchResult err a"
  by (simp_all add: catchResult_def split: bool.splits option.splits)

lemma initialQuery_lists [simp]:
  "completeCallbacks (initialQuery ep cfg) = []"
  "errorCallbacks (initialQuery ep cfg) = []"
  "reactions (initialQuery ep cfg) = []"
  by (simp_all add: initialQuery_def)

lemma execute_sync_sel:
  assumes "q < length (queries s)"
    "\<not> (isLoading (resultState (queries s ! q)) \<and> promise (queries s ! q) \<noteq> None)"
  shows "queries (execute q (Some e) s) = (queries s)[q := (beginExecution (queries s ! q))\<lparr>
            timerArmed := False,
            resultState := catchResult e (beginExecution (queries s ! q)),
            completeCallbacks := [], errorCallbacks := [],
            promise := Some (Fulfilled (catchResult e (beginExecution (queries s ! q)))),
            awaiting := False, reactions := [] \<rparr>]"
    and "microtasks (execute q (Some e) s) = microtasks s"
    and "activeQueries (execute q (Some e) s) k =
           (if CacheDelete k \<in> set (completeCallbacks (queries s ! q)) then None else activeQueries s k)"
proof -
  have c: "(isLoading (resultState (queries s ! q)) \<and> promise (queries s ! q) \<noteq> None) = False"
    using assms(2) by simp
  have cc: "completeCallbacks (beginExecution (queries s ! q)) = completeCallbacks (queries s ! q)"
    "reactions (beginExecution (queries s ! q)) = reactions (queries s ! q)"
    by (simp_all add: beginExecution_def)
  show "queries (execute q (Some e) s) = (queries s)[q := (beginExecution (queries s ! q))\<lparr>
            timerArmed := False,
            resultState := catchResult e (beginExecution (queries s ! q)),
            completeCallbacks := [], errorCallbacks := [],
            promise := Some (Fulfilled (catchResult e (beginExecution (queries s ! q)))),
            awaiting := False, reactions := [] \<rparr>]"
    using assms(1) unfolding execute_def c by (simp add: Let_def catchBlock_sel)
  show "microtasks (execute q (Some e) s) = microtasks s"
    using assms(1) unfolding execute_def c by (simp add: Let_def catchBlock_sel)
  show "activeQueries (execute q (Some e) s) k =
           (if CacheDelete k \<in> set (completeCallbacks (queries s ! q)) then None else activeQueries s k)"
    using assms(1) unfolding execute_def c by (simp add: Let_def catchBlock_sel cc)
qed

lemma newActiveQuery_registry [simp]:
  "activeQueries (snd (newActiveQuery ep cfg sync s)) = activeQueries s"
proof (cases "enabled cfg = Some False")
  case True
  then show ?thesis by (simp add: newActiveQuery_manual)
next
  case False
  show ?thesis
  proof (cases sync)
    case None
    with False show ?thesis by (simp add: newActiveQuery_async)
  next
    case (Some e)
    with False show ?thesis
      by (simp add: newActiveQuery_def Let_def fun_eq_iff execute_sync_sel)
  qed
qed








subsection \<open>Reference counts and the abort token along a run\<close>

lemma filter_update_same:
  "i < length xs \<Longrightarrow> P y = P (xs ! i) \<Longrightarrow> length (filter P (xs[i := y])) = length (filter P xs)"
proof (induction xs arbitrary: i)
  case Nil
  then show ?case by simp
next
  case (Cons x xs)
  then show ?case by (cases i) simp_all
qed

lemma filter_update_drop:
  "i < length xs \<Longrightarrow> P (xs ! i) \<Longrightarrow> \<not> P y \<Longrightarrow>
     Suc (length (filter P (xs[i := y]))) = length (filter P xs)"
proof (induction xs arbitrary: i)
  case Nil
  then show ?case by simp
next
  case (Cons x xs)
  then show ?case by (cases i) simp_all
qed

lemma isLoading_catchResult [simp]: "isLoading (catchResult e a) = False"
  by (simp add: catchResult_def split: bool.splits option.splits)

lemma isLoading_tryResult [simp]: "isLoading (tryResult v a) = False"
  by (simp add: tryResult_def)

lemma isLoading_outcomeResult [simp]: "isLoading (outcomeResult out a) = False"
  by (cases out) simp_all

lemma liveObservers_cong:
  "observers s' = observers s \<Longrightarrow> liveObservers q s' = liveObservers q s"
  by (simp add: liveObservers_def)

lemma liveObservers_frame [simp]:
  "liveObservers q' (settle q out s) = liveObservers q' s"
  "liveObservers q' (timerFires q s) = liveObservers q' s"
  "liveObservers q' (execute q sync s) = liveObservers q' s"
  "liveObservers q' (onComplete q cb s) = liveObservers q' s"
  "liveObservers q' (onError q ecb s) = liveObservers q' s"
  "liveObservers q' (removeRef q s) = liveObservers q' s"
  "liveObservers q' (addRef q s) = liveObservers q' s"
  "liveObservers q' (updQ q f s) = liveObservers q' s"
  "liveObservers q' (enqueue t s) = liveObservers q' s"
  "liveObservers q' (emit es s) = liveObservers q' s"
  by (simp_all add: liveObservers_def onComplete_sel onError_sel)

lemma consistent_settle:
  assumes "consistent s" "q < length (queries s)"
  shows "consistent (settle q out s)"
proof (cases "awaiting (queries s ! q)")
  case True
  note sel = settle_sel[OF assms(2) True, of out]
  show ?thesis
    using assms unfolding consistent_def
    by (auto simp add: sel nth_list_update split: if_splits)
next
  case False
  then show ?thesis using assms(1) by (simp add: settle_def)
qed

lemma consistent_timerFires:
  assumes "consistent s" "q < length (queries s)"
  shows "consistent (timerFires q s)"
  using assms unfolding consistent_def
  by (auto simp add: timerFires_queries nth_list_update split: if_splits)

lemma consistent_execute:
  assumes "consistent s" "q < length (queries s)"
  shows "consistent (execute q sync s)"
proof (cases "isLoading (resultState (queries s ! q)) \<and> promise (queries s ! q) \<noteq> None")
  case True
  then show ?thesis using assms(1) by (simp add: execute_def)
next
  case False
  show ?thesis
  proof (cases sync)
    case None
    note sel = execute_async_sel[OF assms(2) False]
    show ?thesis
      using assms unfolding consistent_def None
      by (auto simp add: sel nth_list_update beginExecution_def split: if_splits)
  next
    case (Some e)
    note sel = execute_sync_sel[OF assms(2) False, of e]
    show ?thesis
      using assms unfolding consistent_def Some
      by (auto simp add: sel nth_list_update beginExecution_def split: if_splits)
  qed
qed

lemma consistent_onComplete:
  assumes "consistent s" "q < length (queries s)"
  shows "consistent (onComplete q cb s)"
  using assms unfolding consistent_def
  by (auto simp add: onComplete_sel nth_list_update split: if_splits)

lemma consistent_registry_add:
  assumes "consistent s" "q < length (queries s)"
  shows "consistent (s\<lparr> activeQueries := (activeQueries s)(k \<mapsto> q) \<rparr>)"
  using assms unfolding consistent_def liveObservers_def by auto

lemma consistent_executeDispatch:
  assumes "consistent s" "q < length (queries s)"
  shows "consistent (executeDispatch q sync s)"
proof -
  have "consistent (execute q sync
            (onComplete q (CacheDelete k) (s\<lparr> activeQueries := (activeQueries s)(k \<mapsto> q) \<rparr>)))" for k
  proof -
    have "consistent (s\<lparr> activeQueries := (activeQueries s)(k \<mapsto> q) \<rparr>)"
      by (rule consistent_registry_add[OF assms])
    then have "consistent (onComplete q (CacheDelete k) (s\<lparr> activeQueries := (activeQueries s)(k \<mapsto> q) \<rparr>))"
      by (rule consistent_onComplete) (simp add: assms(2))
    then show ?thesis
      by (rule consistent_execute) (simp add: onComplete_sel assms(2))
  qed
  then show ?thesis
    unfolding executeDispatch_def
    by (auto split: option.splits intro: consistent_execute[OF assms])
qed

lemma liveObservers_append:
  "liveObservers q' (s\<lparr> observers := observers s @ [freshObserver q] \<rparr>)
     = liveObservers q' s + (if q = q' then 1 else 0)"
  by (simp add: liveObservers_def freshObserver_def)

lemma liveObservers_newObserver:
  "liveObservers q' (snd (newObserver q s)) = liveObservers q' s + (if q = q' then 1 else 0)"
  by (simp add: liveObservers_def newObserver_sel freshObserver_def)

lemma consistent_newObserver:
  assumes "consistent s" "q < length (queries s)"
  shows "consistent (snd (newObserver q s))"
  using assms unfolding consistent_def
  by (auto simp add: newObserver_sel newObserver_queries liveObservers_newObserver nth_list_update
        split: if_splits)

lemma liveObservers_cancel:
  assumes "ob < length (observers s)" "\<not> isObserverCanceled (observers s ! ob)"
  shows "int (liveObservers q' (obs_cancel ob s))
       = int (liveObservers q' s) - (if activeQuery (observers s ! ob) = q' then 1 else 0)"
proof -
  let ?P = "\<lambda>x. activeQuery x = q' \<and> \<not> isObserverCanceled x"
  let ?y = "(observers s ! ob)\<lparr> isObserverCanceled := True, wrappedCompleteCallbacks := [],
      wrappedErrorCallbacks := [] \<rparr>"
  have obs: "observers (obs_cancel ob s) = (observers s)[ob := ?y]"
    using assms by (simp add: obs_cancel_def Let_def)
  show ?thesis
  proof (cases "activeQuery (observers s ! ob) = q'")
    case True
    have "Suc (length (filter ?P ((observers s)[ob := ?y]))) = length (filter ?P (observers s))"
      using assms True by (intro filter_update_drop) simp_all
    then show ?thesis using True by (simp add: liveObservers_def obs)
  next
    case False
    have "length (filter ?P ((observers s)[ob := ?y])) = length (filter ?P (observers s))"
      using assms False by (intro filter_update_same) simp_all
    then show ?thesis using False by (simp add: liveObservers_def obs)
  qed
qed

lemma obs_cancel_queries:
  assumes "ob < length (observers s)" "\<not> isObserverCanceled (observers s ! ob)"
    "activeQuery (observers s ! ob) < length (queries s)"
  shows "queries (obs_cancel ob s) = queries (removeRef (activeQuery (observers s ! ob)) s)"
    and "activeQueries (obs_cancel ob s) = activeQueries s"
    and "set (map activeQuery (observers (obs_cancel ob s))) = set (map activeQuery (observers s))"
proof -
  let ?s1 = "updO ob (\<lambda>x. x\<lparr> isObserverCanceled := True \<rparr>) s"
  have q1: "activeQuery (observers s ! ob) < length (queries ?s1)" using assms(3) by simp
  show "queries (obs_cancel ob s) = queries (removeRef (activeQuery (observers s ! ob)) s)"
    using assms by (auto simp add: obs_cancel_def Let_def removeRef_queries[OF q1] removeRef_queries[OF assms(3)])
  show "activeQueries (obs_cancel ob s) = activeQueries s"
    using assms by (simp add: obs_cancel_def Let_def)
  have "map activeQuery (observers (obs_cancel ob s)) = map activeQuery (observers s)"
    using assms by (simp add: obs_cancel_def Let_def map_update list_update_same_conv)
  then show "set (map activeQuery (observers (obs_cancel ob s))) = set (map activeQuery (observers s))"
    by simp
qed

lemma consistent_cancel:
  assumes "consistent s" "ob < length (observers s)"
  shows "consistent (obs_cancel ob s)"
proof (cases "isObserverCanceled (observers s ! ob)")
  case True
  then show ?thesis using assms(1) by (simp add: obs_cancel_def)
next
  case False
  have q: "activeQuery (observers s ! ob) < length (queries s)"
    using assms unfolding consistent_def by simp
  note lo = liveObservers_cancel[OF assms(2) False]
  note oq = obs_cancel_queries[OF assms(2) False q]
  have a: "\<forall>x \<in> set (observers (obs_cancel ob s)). activeQuery x < length (queries (obs_cancel ob s))"
  proof
    fix x assume "x \<in> set (observers (obs_cancel ob s))"
    then have "activeQuery x \<in> set (map activeQuery (observers (obs_cancel ob s)))" by simp
    then have "activeQuery x \<in> set (map activeQuery (observers s))" by (simp only: oq(3))
    then obtain y where "y \<in> set (observers s)" "activeQuery y = activeQuery x" by auto
    then show "activeQuery x < length (queries (obs_cancel ob s))"
      using assms(1) unfolding consistent_def by (auto simp add: oq(1))
  qed
  show ?thesis
    using assms(1) a unfolding consistent_def
    by (auto simp add: oq(1,2) lo removeRef_queries[OF q] nth_list_update split: if_splits)
qed

lemma liveObservers_lists:
  assumes "ob < length (observers s)"
    "activeQuery (f (observers s ! ob)) = activeQuery (observers s ! ob)"
    "isObserverCanceled (f (observers s ! ob)) = isObserverCanceled (observers s ! ob)"
  shows "liveObservers q (updO ob f s) = liveObservers q s"
  using assms by (simp add: liveObservers_def filter_update_same)

lemma observers_targets_updO:
  assumes "\<forall>x \<in> set (observers s). activeQuery x < n"
    "activeQuery (f (observers s ! ob)) = activeQuery (observers s ! ob)" "ob < length (observers s)"
  shows "\<forall>x \<in> set (observers (updO ob f s)). activeQuery x < n"
proof
  fix x assume "x \<in> set (observers (updO ob f s))"
  then have "x \<in> insert (f (observers s ! ob)) (set (observers s))"
    using set_update_subset_insert by fastforce
  then show "activeQuery x < n" using assms by auto
qed

lemma consistent_updO:
  assumes "consistent s" "ob < length (observers s)"
    "activeQuery (f (observers s ! ob)) = activeQuery (observers s ! ob)"
    "isObserverCanceled (f (observers s ! ob)) = isObserverCanceled (observers s ! ob)"
  shows "consistent (updO ob f s)"
proof -
  have a: "\<forall>x \<in> set (observers (updO ob f s)). activeQuery x < length (queries s)"
    using assms(1) by (intro observers_targets_updO assms) (simp add: consistent_def)
  show ?thesis
    using assms(1) a unfolding consistent_def
    by (simp add: liveObservers_lists[of ob s f, OF assms(2-4)])
qed

lemma consistent_enqueue [simp]: "consistent (enqueue t s) = consistent s"
  by (simp add: consistent_def)

lemma consistent_emit [simp]: "consistent (emit es s) = consistent s"
  by (simp add: consistent_def)

lemma consistent_obs_onComplete:
  assumes "consistent s" "ob < length (observers s)"
  shows "consistent (obs_onComplete ob n s)"
  using assms by (simp add: obs_onComplete_def Let_def consistent_updO)

lemma consistent_obs_onError:
  assumes "consistent s" "ob < length (observers s)"
  shows "consistent (obs_onError ob n s)"
  using assms by (simp add: obs_onError_def Let_def consistent_updO)

lemma consistent_updQ_frame:
  assumes "consistent s"
    "refCount (f (queries s ! q)) = refCount (queries s ! q)"
    "isLoading (resultState (f (queries s ! q))) = isLoading (resultState (queries s ! q))"
    "abortController (f (queries s ! q)) = abortController (queries s ! q)"
    "q < length (queries s)"
  shows "consistent (updQ q f s)"
  using assms unfolding consistent_def
  by (auto simp add: nth_list_update split: if_splits)

lemma consistent_obs_then:
  assumes "consistent s" "ob < length (observers s)"
  shows "consistent (snd (obs_then ob c s))"
proof -
  have q: "activeQuery (observers s ! ob) < length (queries s)"
    using assms unfolding consistent_def by simp
  show ?thesis
    using assms(1) q
    by (simp add: obs_then_def Let_def consistent_updQ_frame split: option.splits promiseState.splits)
qed

lemma consistent_registry_delete:
  assumes "consistent s"
  shows "consistent (s\<lparr> activeQueries := (activeQueries s)(k := None) \<rparr>)"
  using assms unfolding consistent_def liveObservers_def by auto

lemma consistent_call_complete:
  assumes "consistent s"
  shows "consistent (call_complete cb r s)"
  using assms by (cases cb) (simp_all add: consistent_registry_delete)

lemma consistent_call_error:
  assumes "consistent s"
  shows "consistent (call_error cb e s)"
  using assms by (cases cb) simp_all

lemma consistent_runMicrotask:
  assumes "consistent s"
  shows "consistent (runMicrotask t s)"
  using assms
  by (cases t) (simp_all add: consistent_call_complete consistent_call_error, (rename_tac ob c r, case_tac c, simp_all)?)

lemma consistent_microtasks_upd [simp]:
  "consistent (s\<lparr> microtasks := ts \<rparr>) = consistent s"
  by (simp add: consistent_def liveObservers_def)

lemma consistent_runNext:
  assumes "consistent s"
  shows "consistent (runNext s)"
  using assms by (simp add: runNext_def consistent_runMicrotask split: list.splits)

lemma consistent_config [simp]:
  "consistent (setConfig cfg s) = consistent s"
  "consistent (updateConfig cfg s) = consistent s"
  by (simp_all add: consistent_def liveObservers_def setConfig_def updateConfig_def)

lemma liveObservers_beyond:
  assumes "\<forall>x \<in> set (observers s). activeQuery x < n" "n \<le> q"
  shows "liveObservers q s = 0"
  using assms by (auto simp add: liveObservers_def filter_empty_conv)

lemma consistent_append_query:
  assumes "consistent s"
  shows "consistent (s\<lparr> queries := queries s @ [initialQuery ep cfg] \<rparr>)"
proof -
  have z: "liveObservers (length (queries s)) s = 0"
    using assms by (intro liveObservers_beyond[of s "length (queries s)"]) (simp_all add: consistent_def)
  have lo: "\<And>q. liveObservers q (s\<lparr> queries := queries s @ [initialQuery ep cfg] \<rparr>) = liveObservers q s"
    by (simp add: liveObservers_def)
  show ?thesis
    using assms z unfolding consistent_def lo
    by (auto simp add: nth_append less_Suc_eq initialQuery_def initialResult_def)
qed

lemma consistent_newActiveQuery:
  assumes "consistent s"
  shows "consistent (snd (newActiveQuery ep cfg sync s))"
  using consistent_append_query[OF assms, of ep cfg]
  by (simp add: newActiveQuery_def Let_def consistent_execute)

lemma consistent_useFetch:
  assumes "consistent s"
  shows "consistent (snd (useFetch ep cfg sync s))"
  using consistent_newActiveQuery[OF assms, of "unwrapEndpoint ep" cfg sync]
  by (simp add: useFetch_def split_def consistent_newObserver)

lemma consistent_client_useFetch:
  assumes "consistent s"
  shows "consistent (snd (client_useFetch js ep cfg sync s))"
proof (cases "lookupKey js ep cfg s")
  case None
  show ?thesis
    using consistent_newActiveQuery[OF assms]
    by (simp add: client_useFetch_unkeyed[OF None] consistent_newObserver)
next
  case (Some k)
  show ?thesis
  proof (cases "activeQueries s k")
    case (Some q)
    have "q < length (queries s)" using assms Some unfolding consistent_def by blast
    then show ?thesis
      using assms by (simp add: client_useFetch_shared[OF \<open>lookupKey js ep cfg s = Some k\<close> Some]
          consistent_newObserver)
  next
    case None
    let ?m = "mergeConfig (clientConfig s) cfg"
    let ?n = "snd (newActiveQuery (finalEndpoint ?m (unwrapEndpoint ep)) ?m sync s)"
    have cn: "consistent ?n" by (rule consistent_newActiveQuery[OF assms])
    have ln: "length (queries s) < length (queries ?n)" by simp
    show ?thesis
    proof (cases "enabled ?m = Some False")
      case True
      have "consistent (updQ (length (queries s)) (\<lambda>a. a\<lparr> lazyKey := Some k \<rparr>) ?n)"
        using cn ln by (intro consistent_updQ_frame) simp_all
      then show ?thesis
        using True
        by (simp add: client_useFetch_fresh_manual[OF \<open>lookupKey js ep cfg s = Some k\<close> None True]
            consistent_newObserver newActiveQuery_manual)
    next
      case False
      have "consistent (?n\<lparr> activeQueries := (activeQueries ?n)(k \<mapsto> length (queries s)) \<rparr>)"
        using cn ln by (rule consistent_registry_add)
      then have "consistent (onComplete (length (queries s)) (CacheDelete k)
            (?n\<lparr> activeQueries := (activeQueries ?n)(k \<mapsto> length (queries s)) \<rparr>))"
        by (rule consistent_onComplete) simp
      then show ?thesis
        by (simp add: client_useFetch_fresh_enabled[OF \<open>lookupKey js ep cfg s = Some k\<close> None False]
            consistent_newObserver onComplete_sel)
    qed
  qed
qed

lemma consistent_init: "consistent (initState cfg)"
  by (simp add: consistent_def initState_def)

lemma consistent_step:
  assumes "consistent s"
  shows "consistent (step js a s)"
proof (cases a)
  case (AExecute ob sync)
  show ?thesis
  proof (cases "ob < length (observers s)")
    case True
    then have "activeQuery (observers s ! ob) < length (queries s)"
      using assms unfolding consistent_def by simp
    then show ?thesis
      using assms True AExecute by (simp add: obs_execute_def consistent_executeDispatch)
  next
    case False
    then show ?thesis using assms AExecute by simp
  qed
qed (use assms in \<open>simp_all add: consistent_client_useFetch consistent_useFetch
      consistent_obs_onComplete consistent_obs_onError consistent_cancel consistent_obs_then
      consistent_settle consistent_timerFires consistent_runNext\<close>)

lemma consistent_run:
  assumes "consistent s"
  shows "consistent (run js acts s)"
  using assms unfolding run_def
  by (induction acts arbitrary: s) (simp_all add: consistent_step)

lemma tok_settle:
  assumes "q' < length (queries s)"
  shows "abortController (queries (settle q' out s) ! q) = abortController (queries s ! q)"
proof (cases "awaiting (queries s ! q')")
  case True
  show ?thesis
    using assms by (cases "q = q'") (simp_all add: settle_sel[OF assms True])
next
  case False
  then show ?thesis by (simp add: settle_def)
qed

lemma tok_execute:
  assumes "q' < length (queries s)" "abortController (queries (execute q' sync s) ! q) = Some True"
  shows "abortController (queries s ! q) = Some True"
proof (cases "isLoading (resultState (queries s ! q')) \<and> promise (queries s ! q') \<noteq> None")
  case True
  then show ?thesis using assms(2) by (simp add: execute_def)
next
  case False
  show ?thesis
  proof (cases sync)
    case None
    show ?thesis
      using assms unfolding None
      by (cases "q = q'") (simp_all add: execute_async_sel[OF assms(1) False] beginExecution_def)
  next
    case (Some e)
    show ?thesis
      using assms unfolding Some
      by (cases "q = q'") (simp_all add: execute_sync_sel[OF assms(1) False] beginExecution_def)
  qed
qed

lemma tok_onComplete [simp]:
  "abortController (queries (onComplete q' cb s) ! q) = abortController (queries s ! q)"
proof (cases "q' < length (queries s)")
  case True
  then show ?thesis by (cases "q = q'") (simp_all add: onComplete_sel)
next
  case False
  then show ?thesis by (simp add: onComplete_sel list_update_beyond)
qed

lemma tok_executeDispatch:
  assumes "q' < length (queries s)" "abortController (queries (executeDispatch q' sync s) ! q) = Some True"
  shows "abortController (queries s ! q) = Some True"
proof (cases "lazyKey (queries s ! q')")
  case None
  then show ?thesis using assms by (simp add: executeDispatch_def tok_execute[OF assms(1)])
next
  case (Some k)
  let ?s' = "onComplete q' (CacheDelete k) (s\<lparr> activeQueries := (activeQueries s)(k \<mapsto> q') \<rparr>)"
  have l: "q' < length (queries ?s')" using assms(1) by (simp add: onComplete_sel)
  show ?thesis
  proof (cases "activeQueries s k")
    case None
    with Some assms(2) have "abortController (queries (execute q' sync ?s') ! q) = Some True"
      by (simp add: executeDispatch_def)
    from tok_execute[OF l this] show ?thesis by simp
  next
    case (Some y)
    with \<open>lazyKey (queries s ! q') = Some k\<close> assms(2)
    have "abortController (queries (execute q' sync s) ! q) = Some True"
      by (simp add: executeDispatch_def)
    from tok_execute[OF assms(1) this] show ?thesis .
  qed
qed

lemma tok_newObserver:
  assumes "q' < length (queries s)"
  shows "abortController (queries (snd (newObserver q' s)) ! q) = abortController (queries s ! q)"
  using assms by (cases "q = q'") (simp_all add: newObserver_queries)

lemma execute_other:
  assumes "q' < length (queries s)" "q \<noteq> q'"
  shows "queries (execute q' sync s) ! q = queries s ! q"
proof (cases "isLoading (resultState (queries s ! q')) \<and> promise (queries s ! q') \<noteq> None")
  case True
  then show ?thesis by (simp add: execute_def)
next
  case False
  show ?thesis
    using assms(2)
    by (cases sync)
       (simp_all add: execute_async_sel[OF assms(1) False] execute_sync_sel[OF assms(1) False])
qed

lemma newActiveQuery_old:
  assumes "q < length (queries s)"
  shows "queries (snd (newActiveQuery ep cfg sync s)) ! q = queries s ! q"
proof -
  let ?s1 = "s\<lparr> queries := queries s @ [initialQuery ep cfg] \<rparr>"
  have "queries (execute (length (queries s)) sync ?s1) ! q = queries ?s1 ! q"
    using assms by (intro execute_other) simp_all
  then show ?thesis
    using assms by (simp add: newActiveQuery_def Let_def nth_append)
qed

lemma tok_useFetch:
  assumes "q < length (queries s)"
  shows "abortController (queries (snd (useFetch ep cfg sync s)) ! q) = abortController (queries s ! q)"
  using assms
  by (simp add: useFetch_def split_def tok_newObserver newActiveQuery_old)

lemma tok_client_useFetch:
  assumes "consistent s" "q < length (queries s)"
  shows "abortController (queries (snd (client_useFetch js ep cfg sync s)) ! q) = abortController (queries s ! q)"
proof (cases "lookupKey js ep cfg s")
  case None
  show ?thesis
    using assms(2) by (simp add: client_useFetch_unkeyed[OF None] tok_newObserver newActiveQuery_old)
next
  case (Some k)
  show ?thesis
  proof (cases "activeQueries s k")
    case (Some q')
    have "q' < length (queries s)" using assms(1) Some unfolding consistent_def by blast
    then show ?thesis
      by (simp add: client_useFetch_shared[OF \<open>lookupKey js ep cfg s = Some k\<close> Some] tok_newObserver)
  next
    case None
    let ?m = "mergeConfig (clientConfig s) cfg"
    show ?thesis
    proof (cases "enabled ?m = Some False")
      case True
      show ?thesis
        using assms(2)
        by (simp add: client_useFetch_fresh_manual[OF \<open>lookupKey js ep cfg s = Some k\<close> None True]
              tok_newObserver nth_append)
    next
      case False
      show ?thesis
        using assms(2)
        by (simp add: client_useFetch_fresh_enabled[OF \<open>lookupKey js ep cfg s = Some k\<close> None False]
              tok_newObserver onComplete_sel newActiveQuery_old)
    qed
  qed
qed

lemma live_member:
  assumes "ob < length (observers s)" "\<not> isObserverCanceled (observers s ! ob)"
  shows "1 \<le> liveObservers (activeQuery (observers s ! ob)) s"
proof -
  have "observers s ! ob \<in> set (filter (\<lambda>x. activeQuery x = activeQuery (observers s ! ob)
            \<and> \<not> isObserverCanceled x) (observers s))"
    using assms by simp
  then have "0 < length (filter (\<lambda>x. activeQuery x = activeQuery (observers s ! ob)
            \<and> \<not> isObserverCanceled x) (observers s))"
    by (metis length_pos_if_in_set)
  then show ?thesis unfolding liveObservers_def by linarith
qed

lemma tok_removeRef:
  assumes "q' < length (queries s)"
  shows "abortController (queries (removeRef q' s) ! q) =
     (if q = q' \<and> refCount (queries s ! q') - 1 \<le> 0 \<and> isLoading (resultState (queries s ! q'))
          \<and> abortController (queries s ! q') \<noteq> None
      then Some True else abortController (queries s ! q))"
  using assms by (cases "q = q'") (simp_all add: removeRef_queries)

lemma tok_cancel:
  assumes "consistent s" "ob < length (observers s)" "\<not> isObserverCanceled (observers s ! ob)"
  shows "abortController (queries (obs_cancel ob s) ! q) =
     (if q = activeQuery (observers s ! ob) \<and> liveObservers q s = 1
          \<and> isLoading (resultState (queries s ! q))
      then Some True else abortController (queries s ! q))"
proof -
  let ?q0 = "activeQuery (observers s ! ob)"
  have q0: "?q0 < length (queries s)" using assms(1,2) unfolding consistent_def by simp
  have rc: "refCount (queries s ! ?q0) = int (liveObservers ?q0 s)"
    and ld: "isLoading (resultState (queries s ! ?q0)) \<longrightarrow> abortController (queries s ! ?q0) \<noteq> None"
    using assms(1) q0 unfolding consistent_def by simp_all
  have ge: "1 \<le> liveObservers ?q0 s" by (rule live_member[OF assms(2,3)])
  have "abortController (queries (obs_cancel ob s) ! q)
      = abortController (queries (removeRef ?q0 s) ! q)"
    by (simp add: obs_cancel_queries(1)[OF assms(2,3) q0])
  then show ?thesis
    using rc ld ge by (auto simp add: tok_removeRef[OF q0])
qed

lemma token_step:
  assumes "consistent s" "q < length (queries s)"
    "\<not> tokenTriggered q s" "tokenTriggered q (step js a s)"
  shows "(a = ATimer q \<and> timerArmed (queries s ! q))
       \<or> (\<exists>ob. a = ACancel ob \<and> ob < length (observers s)
              \<and> \<not> isObserverCanceled (observers s ! ob)
              \<and> activeQuery (observers s ! ob) = q
              \<and> liveObservers q s = 1
              \<and> isLoading (resultState (queries s ! q)))"
proof (cases a)
  case (AUseFetch ep cfg sync)
  then show ?thesis using assms by (simp add: tokenTriggered_def tok_client_useFetch)
next
  case (AStandalone ep cfg sync)
  then show ?thesis using assms by (simp add: tokenTriggered_def tok_useFetch)
next
  case (AExecute ob sync)
  show ?thesis
  proof (cases "ob < length (observers s)")
    case True
    then have v: "activeQuery (observers s ! ob) < length (queries s)"
      using assms(1) unfolding consistent_def by simp
    from assms(4) AExecute True
    have "abortController (queries (executeDispatch (activeQuery (observers s ! ob)) sync s) ! q) = Some True"
      by (simp add: tokenTriggered_def obs_execute_def)
    from tok_executeDispatch[OF v this] assms(3) show ?thesis by (simp add: tokenTriggered_def)
  next
    case False
    then show ?thesis using assms AExecute by simp
  qed
next
  case (AOnComplete ob n)
  then show ?thesis using assms by (simp add: tokenTriggered_def obs_onComplete_def Let_def split: if_splits)
next
  case (AOnError ob n)
  then show ?thesis using assms by (simp add: tokenTriggered_def obs_onError_def Let_def split: if_splits)
next
  case (ACancel ob)
  show ?thesis
  proof (cases "ob < length (observers s) \<and> \<not> isObserverCanceled (observers s ! ob)")
    case True
    then show ?thesis
      using assms ACancel tok_cancel[OF assms(1), of ob q]
      by (auto simp add: tokenTriggered_def split: if_splits)
  next
    case False
    have "step js a s = s" using False ACancel by (auto simp add: obs_cancel_def)
    then show ?thesis using assms by simp
  qed
next
  case (AThen ob c)
  show ?thesis
  proof (cases "ob < length (observers s)")
    case True
    have "abortController (queries (snd (obs_then ob c s)) ! q) = abortController (queries s ! q)"
      using assms(2)
      by (cases "q = activeQuery (observers s ! ob)")
         (auto simp add: obs_then_def Let_def nth_list_update
            split: option.splits promiseState.splits)
    then show ?thesis using assms AThen True by (simp add: tokenTriggered_def)
  next
    case False
    then show ?thesis using assms AThen by simp
  qed
next
  case (ASettle q' out)
  then show ?thesis using assms by (simp add: tokenTriggered_def tok_settle split: if_splits)
next
  case (ATimer q')
  show ?thesis
  proof (cases "q' < length (queries s)")
    case True
    then show ?thesis
      using assms ATimer
      by (cases "q = q'") (auto simp add: tokenTriggered_def timerFires_queries split: if_splits)
  next
    case False
    then show ?thesis using assms ATimer by simp
  qed
next
  case AMicrotask
  have "queries (runNext s) = queries s"
  proof (cases "microtasks s")
    case Nil
    then show ?thesis by (simp add: runNext_def)
  next
    case (Cons t ts)
    have "queries (runMicrotask t (s\<lparr> microtasks := ts \<rparr>)) = queries s"
      by (cases t) (simp_all, (rename_tac ob c r, case_tac c, simp_all)?)
    then show ?thesis using Cons by (simp add: runNext_def)
  qed
  then show ?thesis using assms AMicrotask by (simp add: tokenTriggered_def)
next
  case (ASetConfig cfg)
  then show ?thesis using assms by (simp add: tokenTriggered_def setConfig_def)
next
  case (AUpdateConfig cfg)
  then show ?thesis using assms by (simp add: tokenTriggered_def updateConfig_def)
qed

lemma exArmed_eq:
  "exArmed = \<lparr> queries =
      [\<lparr> endpoint = Fetcher 0, config = emptyConfig\<lparr> timeout := Some 10 \<rparr>,
         resultState = initialResult\<lparr> isLoading := True \<rparr>,
         completeCallbacks = [RelayComplete 0], errorCallbacks = [RelayError 0],
         abortController = Some False, promise = Some Pending, refCount = 1,
         didTimeout = False, timerArmed = True, timeoutError = Some timeout10, awaiting = True,
         reactions = [], lazyKey = None \<rparr>],
     observers = [\<lparr> activeQuery = 0, isObserverCanceled = False,
         wrappedCompleteCallbacks = [7], wrappedErrorCallbacks = [8] \<rparr>],
     clientConfig = emptyConfig, activeQueries = (\<lambda>k. None), microtasks = [],
     trace = [WorkInvoked 0] \<rparr>"
  by (simp add: exArmed_def engine_defs stringOfNat_10 timeout10_def)

lemma exArmed_run: "run noJson exArmedActions (initState emptyConfig) = exArmed"
  by (simp add: run_def exArmedActions_def exArmed_def engine_defs)

lemma exTimedOut_armed: "timerFires 0 exArmed = exTimedOut"
  by (simp add: exTimedOut_def exArmed_def)

lemma exSharedCalls_eq:
  "snd (client_useFetch noJson (ArgDefinition ''k'' 0) emptyConfig None
       (snd (client_useFetch noJson (ArgDefinition ''k'' 0) emptyConfig None (initState emptyConfig))))
   = \<lparr> queries =
      [\<lparr> endpoint = Fetcher 0, config = mergeConfig emptyConfig emptyConfig,
         resultState = initialResult\<lparr> isLoading := True \<rparr>,
         completeCallbacks = [CacheDelete ''k'', RelayComplete 0, RelayComplete 1],
         errorCallbacks = [RelayError 0, RelayError 1],
         abortController = Some False, promise = Some Pending, refCount = 2,
         didTimeout = False, timerArmed = False, timeoutError = None, awaiting = True,
         reactions = [], lazyKey = None \<rparr>],
     observers = [\<lparr> activeQuery = 0, isObserverCanceled = False,
         wrappedCompleteCallbacks = [], wrappedErrorCallbacks = [] \<rparr>,
       \<lparr> activeQuery = 0, isObserverCanceled = False,
         wrappedCompleteCallbacks = [], wrappedErrorCallbacks = [] \<rparr>],
     clientConfig = emptyConfig, activeQueries = (\<lambda>k. None)(''k'' \<mapsto> 0), microtasks = [],
     trace = [WorkInvoked 0] \<rparr>"
proof -
  let ?s0 = "initState emptyConfig"
  have k0: "lookupKey noJson (ArgDefinition ''k'' 0) emptyConfig ?s0 = Some ''k''"
    by (simp add: lookupKey_definition initState_def)
  have e: "enabled (mergeConfig (clientConfig ?s0) emptyConfig) \<noteq> Some False"
    by (simp add: mergeConfig_def initState_def emptyConfig_def orElse_def)
  have s1: "snd (client_useFetch noJson (ArgDefinition ''k'' 0) emptyConfig None ?s0) =
     \<lparr> queries =
      [\<lparr> endpoint = Fetcher 0, config = mergeConfig emptyConfig emptyConfig,
         resultState = initialResult\<lparr> isLoading := True \<rparr>,
         completeCallbacks = [CacheDelete ''k'', RelayComplete 0],
         errorCallbacks = [RelayError 0],
         abortController = Some False, promise = Some Pending, refCount = 1,
         didTimeout = False, timerArmed = False, timeoutError = None, awaiting = True,
         reactions = [], lazyKey = None \<rparr>],
     observers = [\<lparr> activeQuery = 0, isObserverCanceled = False,
         wrappedCompleteCallbacks = [], wrappedErrorCallbacks = [] \<rparr>],
     clientConfig = emptyConfig, activeQueries = (\<lambda>k. None)(''k'' \<mapsto> 0), microtasks = [],
     trace = [WorkInvoked 0] \<rparr>" (is "_ = ?s1")
    apply (subst client_useFetch_fresh_enabled[OF k0 _ e])
     apply (simp add: initState_def)
    apply (simp add: engine_defs finalEndpoint_def mergeConfig_def orElse_def spreadHeaders_def)
    done
  have k1: "lookupKey noJson (ArgDefinition ''k'' 0) emptyConfig ?s1 = Some ''k''"
    by (simp add: lookupKey_definition)
  have s2: "snd (client_useFetch noJson (ArgDefinition ''k'' 0) emptyConfig None ?s1) =
      snd (newObserver 0 ?s1)"
    by (subst client_useFetch_shared[OF k1]) simp_all
  show ?thesis
    unfolding s1 s2 by (simp add: engine_defs)
qed

lemma exShared_run: "run noJson exSharedActions (initState emptyConfig) = exShared"
  by (simp add: run_def exSharedActions_def exShared_def exSharedCalls_eq
      obs_onComplete_def updO_def enqueue_def Let_def)

lemma run_snoc: "run js (acts @ [a]) s = step js a (run js acts s)"
  by (simp add: run_def)

lemma exOneLeft_eq:
  "exOneLeft = \<lparr> queries =
      [\<lparr> endpoint = Fetcher 0, config = mergeConfig emptyConfig emptyConfig,
         resultState = initialResult\<lparr> isLoading := True \<rparr>,
         completeCallbacks = [CacheDelete ''k'', RelayComplete 0, RelayComplete 1],
         errorCallbacks = [RelayError 0, RelayError 1],
         abortController = Some False, promise = Some Pending, refCount = 1,
         didTimeout = False, timerArmed = False, timeoutError = None, awaiting = True,
         reactions = [], lazyKey = None \<rparr>],
     observers = [\<lparr> activeQuery = 0, isObserverCanceled = True,
         wrappedCompleteCallbacks = [], wrappedErrorCallbacks = [] \<rparr>,
       \<lparr> activeQuery = 0, isObserverCanceled = False,
         wrappedCompleteCallbacks = [9], wrappedErrorCallbacks = [] \<rparr>],
     clientConfig = emptyConfig, activeQueries = (\<lambda>k. None)(''k'' \<mapsto> 0),
     microtasks = [DeliverCanceled [7]],
     trace = [WorkInvoked 0] \<rparr>"
  by (simp add: exOneLeft_def exShared_eq engine_defs)

lemma exOneLeft_run: "run noJson (exSharedActions @ [ACancel 0]) (initState emptyConfig) = exOneLeft"
  by (simp add: run_snoc exShared_run exOneLeft_def exShared_eq)

subsection \<open>Further example runs\<close>

lemma exFailed_eq:
  "exFailed = \<lparr> queries =
      [\<lparr> endpoint = Fetcher 0, config = emptyConfig,
         resultState = \<lparr> data = JNull, error = JStr ''boom'', isSuccess = False, isError = True,
            isCanceled = False, isLoading = False \<rparr>,
         completeCallbacks = [], errorCallbacks = [],
         abortController = Some False,
         promise = Some (Fulfilled \<lparr> data = JNull, error = JStr ''boom'', isSuccess = False,
            isError = True, isCanceled = False, isLoading = False \<rparr>), refCount = 1,
         didTimeout = False, timerArmed = False, timeoutError = None, awaiting = False,
         reactions = [], lazyKey = None \<rparr>],
     observers = [\<lparr> activeQuery = 0, isObserverCanceled = False,
         wrappedCompleteCallbacks = [7], wrappedErrorCallbacks = [8] \<rparr>],
     clientConfig = emptyConfig, activeQueries = (\<lambda>k. None), microtasks = [],
     trace = [WorkInvoked 0, ErrorCalled 8 (JStr ''boom''),
        CompleteCalled 7 \<lparr> data = JNull, error = JStr ''boom'', isSuccess = False, isError = True,
            isCanceled = False, isLoading = False \<rparr>] \<rparr>"
  by (simp add: exFailed_def exLoading_eq engine_defs fun_eq_iff)

lemma exRerun_eq:
  "exRerun = exFailed\<lparr> queries := [(queries exFailed ! 0)\<lparr>
        resultState := \<lparr> data = JNull, error = JStr ''boom'', isSuccess = False, isError = True,
            isCanceled = False, isLoading = True \<rparr>,
        promise := Some Pending, awaiting := True \<rparr>],
      trace := trace exFailed @ [WorkInvoked 0] \<rparr>"
  by (simp add: exRerun_def exFailed_eq engine_defs)

lemma exLoading_run:
  "run noJson [AStandalone (ArgFetcher 0) emptyConfig None, AOnComplete 0 7, AOnError 0 8]
     (initState emptyConfig) = exLoading"
  by (simp add: run_def exLoading_def engine_defs)

lemma exRerun_run: "run noJson exRerunActions (initState emptyConfig) = exRerun"
proof -
  have "run noJson exRerunActions (initState emptyConfig)
      = step noJson (AExecute 0 None) (step noJson (ASettle 0 (Threw (JStr ''boom'')))
          (run noJson [AStandalone (ArgFetcher 0) emptyConfig None, AOnComplete 0 7, AOnError 0 8]
             (initState emptyConfig)))"
    by (simp only: run_def exRerunActions_def fold.simps o_apply id_apply)
  also have "step noJson (ASettle 0 (Threw (JStr ''boom''))) (run noJson
        [AStandalone (ArgFetcher 0) emptyConfig None, AOnComplete 0 7, AOnError 0 8]
             (initState emptyConfig)) = exFailed"
    unfolding exLoading_run by (simp add: exFailed_def exLoading_eq)
  also have "step noJson (AExecute 0 None) exFailed = exRerun"
    by (simp add: exRerun_def exFailed_eq)
  finally show ?thesis .
qed







subsection \<open>The three classes of a failed execution\<close>

text \<open>
  When the awaited work of a loading query raises \<open>err\<close>, the \<open>catch\<close> block writes the result
  in this order: (1) the timed-out flag is set: \<open>isError\<close> and the timeout error are written,
  error listeners are notified before completion listeners; (2) otherwise the failure is an
  abort error or the token is triggered: only \<open>isLoading\<close> and \<open>isCanceled\<close> are written and
  only completion listeners are notified; (3) otherwise: \<open>isError\<close> and the raised value are
  written, error listeners before completion listeners. All other fields of the result are
  those that \<open>execute()\<close> left. Work that produces a value after the token was triggered is
  classified the same way.
\<close>

lemma failure_classification:
  assumes "q < length (queries s)" and "awaiting (queries s ! q)"
  shows
   "(\<forall>te. didTimeout (queries s ! q) \<and> timeoutError (queries s ! q) = Some te \<longrightarrow>
        resultState (queries (settle q (Threw err) s) ! q)
          = (resultState (queries s ! q))\<lparr> isLoading := False, isError := True, error := te \<rparr>
      \<and> trace (settle q (Threw err) s)
          = trace s @ errorFanout q te s
              @ completeFanout q ((resultState (queries s ! q))\<lparr> isLoading := False, isError := True, error := te \<rparr>) s)
    \<and> (\<not> (didTimeout (queries s ! q) \<and> timeoutError (queries s ! q) \<noteq> None)
         \<and> (isAbortError err \<or> tokenTriggered q s) \<longrightarrow>
        resultState (queries (settle q (Threw err) s) ! q)
          = (resultState (queries s ! q))\<lparr> isLoading := False, isCanceled := True \<rparr>
      \<and> trace (settle q (Threw err) s)
          = trace s @ completeFanout q ((resultState (queries s ! q))\<lparr> isLoading := False, isCanceled := True \<rparr>) s)
    \<and> (\<not> (didTimeout (queries s ! q) \<and> timeoutError (queries s ! q) \<noteq> None)
         \<and> \<not> isAbortError err \<and> \<not> tokenTriggered q s \<longrightarrow>
        resultState (queries (settle q (Threw err) s) ! q)
          = (resultState (queries s ! q))\<lparr> isLoading := False, isError := True, error := err \<rparr>
      \<and> trace (settle q (Threw err) s)
          = trace s @ errorFanout q err s
              @ completeFanout q ((resultState (queries s ! q))\<lparr> isLoading := False, isError := True, error := err \<rparr>) s)
    \<and> (tokenTriggered q s \<longrightarrow>
        resultState (queries (settle q (Returned v) s) ! q)
          = resultState (queries (settle q (Threw (case (didTimeout (queries s ! q), timeoutError (queries s ! q)) of
                (True, Some te) \<Rightarrow> te | _ \<Rightarrow> JError ''Error'' ''Aborted'')) s) ! q))
    \<and> (\<forall>ms. timeout (config (queries s ! q)) = Some ms \<and> 0 < ms \<longrightarrow>
        timeoutError (beginExecution (queries s ! q))
          = Some (JError ''Error'' (''timeout of '' @ stringOfNat (nat ms) @ ''ms exceeded'')))
    \<and> (\<forall>cfg ms ep out s0. timeout cfg = Some ms \<and> 0 < ms \<and> enabled cfg \<noteq> Some False \<longrightarrow>
        resultState (queries (settle (length (queries s0)) out
            (timerFires (length (queries s0)) (snd (useFetch ep cfg None s0)))) ! length (queries s0))
         = \<lparr> data = JNull, error = JError ''Error'' (''timeout of '' @ stringOfNat (nat ms) @ ''ms exceeded''),
             isSuccess = False, isError = True, isCanceled = False, isLoading = False \<rparr>)"
proof -
  note r = settle_result[OF assms] and tr = settle_trace[OF assms] and ct = catchBlock_trace[OF assms(1)]
  have c1: "\<And>te. didTimeout (queries s ! q) \<and> timeoutError (queries s ! q) = Some te \<Longrightarrow>
        resultState (queries (settle q (Threw err) s) ! q)
          = (resultState (queries s ! q))\<lparr> isLoading := False, isError := True, error := te \<rparr>
      \<and> trace (settle q (Threw err) s)
          = trace s @ errorFanout q te s
              @ completeFanout q ((resultState (queries s ! q))\<lparr> isLoading := False, isError := True, error := te \<rparr>) s"
    by (simp add: r tr ct catchResult_def)
  have c2: "\<not> (didTimeout (queries s ! q) \<and> timeoutError (queries s ! q) \<noteq> None)
         \<and> (isAbortError err \<or> tokenTriggered q s) \<Longrightarrow>
        resultState (queries (settle q (Threw err) s) ! q)
          = (resultState (queries s ! q))\<lparr> isLoading := False, isCanceled := True \<rparr>
      \<and> trace (settle q (Threw err) s)
          = trace s @ completeFanout q ((resultState (queries s ! q))\<lparr> isLoading := False, isCanceled := True \<rparr>) s"
    by (auto simp add: r tr ct catchResult_def tokenTriggered_def split: bool.splits option.splits)
  have c3: "\<not> (didTimeout (queries s ! q) \<and> timeoutError (queries s ! q) \<noteq> None)
         \<and> \<not> isAbortError err \<and> \<not> tokenTriggered q s \<Longrightarrow>
        resultState (queries (settle q (Threw err) s) ! q)
          = (resultState (queries s ! q))\<lparr> isLoading := False, isError := True, error := err \<rparr>
      \<and> trace (settle q (Threw err) s)
          = trace s @ errorFanout q err s
              @ completeFanout q ((resultState (queries s ! q))\<lparr> isLoading := False, isError := True, error := err \<rparr>) s"
    by (auto simp add: r tr ct catchResult_def tokenTriggered_def split: bool.splits option.splits)
  have c4: "tokenTriggered q s \<Longrightarrow>
        resultState (queries (settle q (Returned v) s) ! q)
          = resultState (queries (settle q (Threw (case (didTimeout (queries s ! q), timeoutError (queries s ! q)) of
                (True, Some te) \<Rightarrow> te | _ \<Rightarrow> JError ''Error'' ''Aborted'')) s) ! q)"
    by (simp add: r tryResult_def tokenTriggered_def)
  have c5: "\<And>ms. timeout (config (queries s ! q)) = Some ms \<and> 0 < ms \<Longrightarrow>
        timeoutError (beginExecution (queries s ! q))
          = Some (JError ''Error'' (''timeout of '' @ stringOfNat (nat ms) @ ''ms exceeded''))"
    by (simp add: beginExecution_def mkTimeoutError_def)
  from c1 c2 c3 c4 c5 timeout_scenario show ?thesis by blast
qed

lemma failure_classification_examples:
  "0 < length (queries exTimedOut) \<and> awaiting (queries exTimedOut ! 0)
   \<and> didTimeout (queries exTimedOut ! 0) \<and> timeoutError (queries exTimedOut ! 0) = Some timeout10
   \<and> resultState (queries (settle 0 (Threw (JError ''AbortError'' ''aborted'')) exTimedOut) ! 0)
       = \<lparr> data = JNull, error = timeout10, isSuccess = False, isError = True,
           isCanceled = False, isLoading = False \<rparr>
   \<and> trace (settle 0 (Threw (JError ''AbortError'' ''aborted'')) exTimedOut)
       = [WorkInvoked 0, ErrorCalled 8 timeout10,
          CompleteCalled 7 \<lparr> data = JNull, error = timeout10, isSuccess = False, isError = True,
            isCanceled = False, isLoading = False \<rparr>]
   \<and> 0 < length (queries exAborted) \<and> awaiting (queries exAborted ! 0)
   \<and> \<not> didTimeout (queries exAborted ! 0) \<and> tokenTriggered 0 exAborted
   \<and> resultState (queries (settle 0 (Threw (JError ''Error'' ''Aborted'')) exAborted) ! 0)
       = canceledState
   \<and> trace (settle 0 (Threw (JError ''Error'' ''Aborted'')) exAborted) = [WorkInvoked 0]
   \<and> 0 < length (queries exLoading) \<and> awaiting (queries exLoading ! 0)
   \<and> \<not> didTimeout (queries exLoading ! 0) \<and> \<not> tokenTriggered 0 exLoading
   \<and> \<not> isAbortError (JError ''Error'' ''Network Error'')
   \<and> resultState (queries (settle 0 (Threw (JError ''Error'' ''Network Error'')) exLoading) ! 0)
       = \<lparr> data = JNull, error = JError ''Error'' ''Network Error'', isSuccess = False, isError = True,
           isCanceled = False, isLoading = False \<rparr>
   \<and> trace (settle 0 (Threw (JError ''Error'' ''Network Error'')) exLoading)
       = [WorkInvoked 0, ErrorCalled 8 (JError ''Error'' ''Network Error''),
          CompleteCalled 7 \<lparr> data = JNull, error = JError ''Error'' ''Network Error'', isSuccess = False,
            isError = True, isCanceled = False, isLoading = False \<rparr>]"
proof -
  have t: "0 < length (queries exTimedOut)" "awaiting (queries exTimedOut ! 0)"
      "didTimeout (queries exTimedOut ! 0) \<and> timeoutError (queries exTimedOut ! 0) = Some timeout10"
    by (simp_all add: exTimedOut_eq)
  have a: "0 < length (queries exAborted)" "awaiting (queries exAborted ! 0)"
      "\<not> (didTimeout (queries exAborted ! 0) \<and> timeoutError (queries exAborted ! 0) \<noteq> None)
         \<and> (isAbortError (JError ''Error'' ''Aborted'') \<or> tokenTriggered 0 exAborted)"
      "\<not> didTimeout (queries exAborted ! 0)" "tokenTriggered 0 exAborted"
    by (simp_all add: exAborted_eq tokenTriggered_def)
  have p: "0 < length (queries exLoading)" "awaiting (queries exLoading ! 0)"
      "\<not> (didTimeout (queries exLoading ! 0) \<and> timeoutError (queries exLoading ! 0) \<noteq> None)
         \<and> \<not> isAbortError (JError ''Error'' ''Network Error'') \<and> \<not> tokenTriggered 0 exLoading"
      "\<not> didTimeout (queries exLoading ! 0)" "\<not> tokenTriggered 0 exLoading"
    by (simp_all add: exLoading_eq tokenTriggered_def)
  from failure_classification [OF t(1,2), of "JError ''AbortError'' ''aborted''"] t(3)
  have T: "resultState (queries (settle 0 (Threw (JError ''AbortError'' ''aborted'')) exTimedOut) ! 0)
          = (resultState (queries exTimedOut ! 0))\<lparr> isLoading := False, isError := True, error := timeout10 \<rparr>
      \<and> trace (settle 0 (Threw (JError ''AbortError'' ''aborted'')) exTimedOut)
          = trace exTimedOut @ errorFanout 0 timeout10 exTimedOut
              @ completeFanout 0 ((resultState (queries exTimedOut ! 0))\<lparr> isLoading := False, isError := True, error := timeout10 \<rparr>) exTimedOut"
    by blast
  from failure_classification [OF a(1,2), of "JError ''Error'' ''Aborted''"] a(3)
  have A: "resultState (queries (settle 0 (Threw (JError ''Error'' ''Aborted'')) exAborted) ! 0)
          = (resultState (queries exAborted ! 0))\<lparr> isLoading := False, isCanceled := True \<rparr>
      \<and> trace (settle 0 (Threw (JError ''Error'' ''Aborted'')) exAborted)
          = trace exAborted @ completeFanout 0 ((resultState (queries exAborted ! 0))\<lparr> isLoading := False, isCanceled := True \<rparr>) exAborted"
    by blast
  from failure_classification [OF p(1,2), of "JError ''Error'' ''Network Error''"] p(3)
  have P: "resultState (queries (settle 0 (Threw (JError ''Error'' ''Network Error'')) exLoading) ! 0)
          = (resultState (queries exLoading ! 0))\<lparr> isLoading := False, isError := True, error := JError ''Error'' ''Network Error'' \<rparr>
      \<and> trace (settle 0 (Threw (JError ''Error'' ''Network Error'')) exLoading)
          = trace exLoading @ errorFanout 0 (JError ''Error'' ''Network Error'') exLoading
              @ completeFanout 0 ((resultState (queries exLoading ! 0))\<lparr> isLoading := False, isError := True, error := JError ''Error'' ''Network Error'' \<rparr>) exLoading"
    by blast
  have T': "resultState (queries (settle 0 (Threw (JError ''AbortError'' ''aborted'')) exTimedOut) ! 0)
       = \<lparr> data = JNull, error = timeout10, isSuccess = False, isError = True,
           isCanceled = False, isLoading = False \<rparr>
   \<and> trace (settle 0 (Threw (JError ''AbortError'' ''aborted'')) exTimedOut)
       = [WorkInvoked 0, ErrorCalled 8 timeout10,
          CompleteCalled 7 \<lparr> data = JNull, error = timeout10, isSuccess = False, isError = True,
            isCanceled = False, isLoading = False \<rparr>]"
    using T by (simp add: exTimedOut_eq completeFanout_def errorFanout_def initialResult_def)
  have A': "resultState (queries (settle 0 (Threw (JError ''Error'' ''Aborted'')) exAborted) ! 0)
       = canceledState
   \<and> trace (settle 0 (Threw (JError ''Error'' ''Aborted'')) exAborted) = [WorkInvoked 0]"
    using A by (simp add: exAborted_eq completeFanout_def errorFanout_def initialResult_def canceledState_def)
  have P': "resultState (queries (settle 0 (Threw (JError ''Error'' ''Network Error'')) exLoading) ! 0)
       = \<lparr> data = JNull, error = JError ''Error'' ''Network Error'', isSuccess = False, isError = True,
           isCanceled = False, isLoading = False \<rparr>
   \<and> trace (settle 0 (Threw (JError ''Error'' ''Network Error'')) exLoading)
       = [WorkInvoked 0, ErrorCalled 8 (JError ''Error'' ''Network Error''),
          CompleteCalled 7 \<lparr> data = JNull, error = JError ''Error'' ''Network Error'', isSuccess = False,
            isError = True, isCanceled = False, isLoading = False \<rparr>]"
    using P by (simp add: exLoading_eq completeFanout_def errorFanout_def initialResult_def)
  have na: "\<not> isAbortError (JError ''Error'' ''Network Error'')" by simp
  from t a(1,2,4,5) p(1,2,4,5) na T' A' P'
  show ?thesis by blast
qed

section \<open>C8: cancelling an observer\<close>

text \<open>
  C8. \<open>cancel()\<close> on an observer that is not canceled sets its flag, takes exactly one
  reference off the query, queues exactly one microtask that hands the synthesized
  canceled result once to each completion callback registered at that moment and to no
  error callback, calls nothing synchronously and empties both of the observer's lists;
  a second \<open>cancel()\<close> changes nothing.
\<close>

theorem C8_cancel_idempotent:
  assumes "ob < length (observers s)"
    and "activeQuery (observers s ! ob) < length (queries s)"
    and "\<not> isObserverCanceled (observers s ! ob)"
  shows "isObserverCanceled (observers (obs_cancel ob s) ! ob)
    \<and> refCount (queries (obs_cancel ob s) ! activeQuery (observers s ! ob))
        = refCount (queries s ! activeQuery (observers s ! ob)) - 1
    \<and> wrappedCompleteCallbacks (observers (obs_cancel ob s) ! ob) = []
    \<and> wrappedErrorCallbacks (observers (obs_cancel ob s) ! ob) = []
    \<and> microtasks (obs_cancel ob s)
        = microtasks s @ [DeliverCanceled (wrappedCompleteCallbacks (observers s ! ob))]
    \<and> trace (obs_cancel ob s) = trace s
    \<and> (\<forall>t. trace (runMicrotask (DeliverCanceled (wrappedCompleteCallbacks (observers s ! ob))) t)
          = trace t @ map (\<lambda>n. CompleteCalled n
               \<lparr> data = JNull, error = JNull, isSuccess = False, isError = False,
                 isCanceled = True, isLoading = False \<rparr>) (wrappedCompleteCallbacks (observers s ! ob)))
    \<and> obs_cancel ob (obs_cancel ob s) = obs_cancel ob s"
  using assms
  by (simp add: obs_cancel_def Let_def removeRef_queries canceledState_def)



theorem C8_cancel_idempotent_witness:
  "0 < length (observers exLoading)
   \<and> activeQuery (observers exLoading ! 0) < length (queries exLoading)
   \<and> \<not> isObserverCanceled (observers exLoading ! 0)
   \<and> wrappedCompleteCallbacks (observers exLoading ! 0) = [7]
   \<and> wrappedErrorCallbacks (observers exLoading ! 0) = [8]
   \<and> microtasks (obs_cancel 0 exLoading) = microtasks exLoading @ [DeliverCanceled [7]]
   \<and> trace (obs_cancel 0 exLoading) = trace exLoading
   \<and> wrappedErrorCallbacks (observers (obs_cancel 0 exLoading) ! 0) = []
   \<and> obs_cancel 0 (obs_cancel 0 exLoading) = obs_cancel 0 exLoading"
proof -
  have h1: "0 < length (observers exLoading)"
    and h2: "activeQuery (observers exLoading ! 0) < length (queries exLoading)"
    and h3: "\<not> isObserverCanceled (observers exLoading ! 0)"
    and c: "wrappedCompleteCallbacks (observers exLoading ! 0) = [7]"
    and e: "wrappedErrorCallbacks (observers exLoading ! 0) = [8]"
    unfolding exLoading_def by code_simp+
  note th = C8_cancel_idempotent [OF h1 h2 h3, unfolded c]
  from h1 h2 h3 c e th show ?thesis by blast
qed

section \<open>C2: two manual queries on one key\<close>

text \<open>
  C2. Two observers created with \<open>enabled: false\<close> on the same key, both executed before
  either settles, should end up on one shared query with one invocation. In the code the
  second \<open>execute()\<close> finds the key registered and still runs its own query: the
  observers keep different ids and the work is invoked twice.
\<close>

theorem C2_manual_queries_do_not_converge:
  "lookupKey noJson (ArgUrl ''/resource'') manualConfig (initState emptyConfig) = Some ''GET:/resource''
   \<and> activeQueries exTwoCreated ''GET:/resource'' = None
   \<and> activeQueries (obs_execute 0 None exTwoCreated) ''GET:/resource'' = Some 0
   \<and> getQueryId 0 exTwoManual = 0
   \<and> getQueryId 1 exTwoManual = 1
   \<and> activeQueries exTwoManual ''GET:/resource'' = Some 0
   \<and> isLoading (resultState (queries exTwoManual ! 0))
   \<and> isLoading (resultState (queries exTwoManual ! 1))
   \<and> trace exTwoManual = [WorkInvoked 0, WorkInvoked 1]
   \<and> totalInvocations exTwoManual = 2"
  by (simp add: exTwoManual_def exTwoCreated_eq engine_defs lookupKey_manual_url)

section \<open>C3: classification of a failed execution\<close>

text \<open>
  C3. A failure that is cancellation-shaped should end with \<open>isCanceled\<close> only and no error
  populated. The \<open>catch\<close> block writes \<open>isCanceled\<close> and nothing else, and \<open>execute()\<close> resets
  only \<open>isLoading\<close> and \<open>isCanceled\<close> of the previous result: a query whose first execution
  failed with \<open>boom\<close>, and whose second execution is rejected with an abort error, ends with
  \<open>isCanceled\<close> and \<open>isError\<close> both true and the error \<open>boom\<close> still stored. On a first
  execution the same rejection ends with \<open>isCanceled\<close> only.
\<close>

theorem C3_stale_error_beside_cancellation:
  "exRerun = run noJson exRerunActions (initState emptyConfig)
   \<and> resultState (queries exFailed ! 0)
       = \<lparr> data = JNull, error = JStr ''boom'', isSuccess = False, isError = True,
           isCanceled = False, isLoading = False \<rparr>
   \<and> isLoading (resultState (queries exRerun ! 0))
   \<and> \<not> didTimeout (queries exRerun ! 0)
   \<and> isAbortError abortError
   \<and> resultState (queries (settle 0 (Threw abortError) exRerun) ! 0)
       = \<lparr> data = JNull, error = JStr ''boom'', isSuccess = False, isError = True,
           isCanceled = True, isLoading = False \<rparr>
   \<and> resultState (queries (settle 0 (Threw abortError) exLoading) ! 0)
       = \<lparr> data = JNull, error = JNull, isSuccess = False, isError = False,
           isCanceled = True, isLoading = False \<rparr>"
proof -
  have a: "exRerun = run noJson exRerunActions (initState emptyConfig)"
    by (simp add: exRerun_run)
  have b: "resultState (queries exFailed ! 0)
       = \<lparr> data = JNull, error = JStr ''boom'', isSuccess = False, isError = True,
           isCanceled = False, isLoading = False \<rparr>
   \<and> isLoading (resultState (queries exRerun ! 0))
   \<and> \<not> didTimeout (queries exRerun ! 0)
   \<and> isAbortError abortError
   \<and> resultState (queries (settle 0 (Threw abortError) exRerun) ! 0)
       = \<lparr> data = JNull, error = JStr ''boom'', isSuccess = False, isError = True,
           isCanceled = True, isLoading = False \<rparr>
   \<and> resultState (queries (settle 0 (Threw abortError) exLoading) ! 0)
       = \<lparr> data = JNull, error = JNull, isSuccess = False, isError = False,
           isCanceled = True, isLoading = False \<rparr>"
    by (simp add: exRerun_eq exFailed_eq exLoading_eq engine_defs abortError_def)
  from a b show ?thesis by (rule conjI)
qed

section \<open>C5: the result flags across executions\<close>

text \<open>
  C5. At most one of \<open>isSuccess\<close>, \<open>isError\<close>, \<open>isCanceled\<close> should be true, and only
  while \<open>isLoading\<close> is false, also across repeated \<open>execute()\<close> calls. In the code
  \<open>execute()\<close> resets only \<open>isCanceled\<close>: a query that succeeded and is executed again is
  loading with \<open>isSuccess\<close> still true, and when that execution fails it ends with both
  \<open>isSuccess\<close> and \<open>isError\<close> true.
\<close>

theorem C5_stale_flags_after_reexecution:
  "resultState (queries exSettled ! 0)
     = \<lparr> data = JStr ''data'', error = JNull, isSuccess = True, isError = False,
         isCanceled = False, isLoading = False \<rparr>
   \<and> resultState (queries (obs_execute 0 None exSettled) ! 0)
     = \<lparr> data = JStr ''data'', error = JNull, isSuccess = True, isError = False,
         isCanceled = False, isLoading = True \<rparr>
   \<and> resultState (queries (settle 0 (Threw (JStr ''boom'')) (obs_execute 0 None exSettled)) ! 0)
     = \<lparr> data = JStr ''data'', error = JStr ''boom'', isSuccess = True, isError = True,
         isCanceled = False, isLoading = False \<rparr>"
  by (simp add: exSettled_eq engine_defs dataResult_def)

section \<open>C7: listener lists after settlement\<close>

text \<open>
  C7. After the fan-out both listener lists of the query are empty, and a completion
  callback registered afterwards gets the snapshot once, deferred; but the code also
  appends it to the cleared list, where it stays: the next execution calls it again.
\<close>

theorem C7_late_callback_is_kept:
  "completeCallbacks (queries exSettled ! 0) = []
   \<and> errorCallbacks (queries exSettled ! 0) = []
   \<and> \<not> isLoading (resultState (queries exSettled ! 0))
   \<and> completeCallbacks (queries exLate ! 0) = [UserComplete 9]
   \<and> getCallbackCount 0 exLate = 1
   \<and> microtasks exLate = [DeliverSnapshot 0 (UserComplete 9)]
   \<and> trace (drain exLate) = trace exSettled @ [CompleteCalled 9 (dataResult ''data'')]
   \<and> trace (drain (settle 0 (Returned (JStr ''again'')) (obs_execute 0 None (drain exLate))))
       = trace exSettled @ [CompleteCalled 9 (dataResult ''data''), WorkInvoked 0,
                            CompleteCalled 9 (dataResult ''again'')]"
  by (simp add: exLate_eq exSettled_eq engine_defs dataResult_def)

section \<open>C9: the promise view of an observer\<close>




section \<open>C10: a falsy raised value is stored but never delivered late\<close>



section \<open>C6: the deduplication key\<close>




section \<open>C4: what triggers the abort token\<close>

text \<open>
  C4. In every state that the engine reaches, the reference count of a query is the number
  of its live observers. While a query has two or more live observers, \<open>cancel()\<close> on one
  of its observers never triggers the abort token. \<open>removeRef\<close> triggers the token exactly
  when it drives the count to zero or below while the query is still loading; so the
  \<open>cancel()\<close> of a live observer triggers it exactly when that observer is the last live one
  and the query is loading. A step of the engine that triggers the token is either that
  last cancellation or the expiry of the timer armed for the configured timeout: apart from
  the timeout, the last cancellation is the only path that aborts work in flight.
\<close>

theorem C4_token_paths:
  assumes "s = run js acts (initState cfg)" and "q < length (queries s)"
  shows "refCount (queries s ! q) = int (liveObservers q s)
    \<and> (\<forall>ob. 2 \<le> liveObservers q s \<and> ob < length (observers s) \<and> activeQuery (observers s ! ob) = q \<longrightarrow>
          tokenTriggered q (obs_cancel ob s) = tokenTriggered q s)
    \<and> (tokenTriggered q (removeRef q s) \<longleftrightarrow>
          (tokenTriggered q s \<or> (refCount (queries s ! q) - 1 \<le> 0 \<and> isLoading (resultState (queries s ! q)))))
    \<and> (\<forall>ob. ob < length (observers s) \<and> \<not> isObserverCanceled (observers s ! ob)
             \<and> activeQuery (observers s ! ob) = q \<longrightarrow>
          (tokenTriggered q (obs_cancel ob s) \<longleftrightarrow>
             (tokenTriggered q s \<or> (liveObservers q s = 1 \<and> isLoading (resultState (queries s ! q))))))
    \<and> (\<forall>a. \<not> tokenTriggered q s \<and> tokenTriggered q (step js a s) \<longrightarrow>
          (a = ATimer q \<and> timerArmed (queries s ! q))
        \<or> (\<exists>ob. a = ACancel ob \<and> ob < length (observers s)
              \<and> \<not> isObserverCanceled (observers s ! ob)
              \<and> activeQuery (observers s ! ob) = q
              \<and> liveObservers q s = 1
              \<and> isLoading (resultState (queries s ! q))))"
proof -
  have c: "consistent s"
    unfolding assms(1) by (rule consistent_run[OF consistent_init])
  have rc: "refCount (queries s ! q) = int (liveObservers q s)"
    and ld: "isLoading (resultState (queries s ! q)) \<longrightarrow> abortController (queries s ! q) \<noteq> None"
    using c assms(2) unfolding consistent_def by simp_all
  have p1: "tokenTriggered q (obs_cancel ob s) = tokenTriggered q s"
    if "2 \<le> liveObservers q s \<and> ob < length (observers s) \<and> activeQuery (observers s ! ob) = q" for ob
  proof (cases "isObserverCanceled (observers s ! ob)")
    case True
    then show ?thesis by (simp add: obs_cancel_def)
  next
    case False
    from that have "liveObservers q s \<noteq> 1" by simp
    then show ?thesis
      using that False by (simp add: tokenTriggered_def tok_cancel[OF c])
  qed
  have p2: "tokenTriggered q (removeRef q s) \<longleftrightarrow>
          (tokenTriggered q s \<or> (refCount (queries s ! q) - 1 \<le> 0 \<and> isLoading (resultState (queries s ! q))))"
    using ld by (auto simp add: tokenTriggered_def tok_removeRef[OF assms(2)])
  have p3: "tokenTriggered q (obs_cancel ob s) \<longleftrightarrow>
             (tokenTriggered q s \<or> (liveObservers q s = 1 \<and> isLoading (resultState (queries s ! q))))"
    if "ob < length (observers s) \<and> \<not> isObserverCanceled (observers s ! ob)
             \<and> activeQuery (observers s ! ob) = q" for ob
    using that by (auto simp add: tokenTriggered_def tok_cancel[OF c])
  have p4: "(a = ATimer q \<and> timerArmed (queries s ! q))
        \<or> (\<exists>ob. a = ACancel ob \<and> ob < length (observers s)
              \<and> \<not> isObserverCanceled (observers s ! ob)
              \<and> activeQuery (observers s ! ob) = q
              \<and> liveObservers q s = 1
              \<and> isLoading (resultState (queries s ! q)))"
    if "\<not> tokenTriggered q s \<and> tokenTriggered q (step js a s)" for a
    using token_step[OF c assms(2), of js a] that by blast
  from rc p1 p2 p3 p4 show ?thesis by blast
qed

theorem C4_token_paths_witness:
  "exShared = run noJson exSharedActions (initState emptyConfig)
   \<and> 0 < length (queries exShared)
   \<and> refCount (queries exShared ! 0) = 2
   \<and> 2 \<le> liveObservers 0 exShared
   \<and> 0 < length (observers exShared) \<and> activeQuery (observers exShared ! 0) = 0
   \<and> isLoading (resultState (queries exShared ! 0))
   \<and> \<not> tokenTriggered 0 exShared
   \<and> \<not> tokenTriggered 0 (obs_cancel 0 exShared)
   \<and> \<not> tokenTriggered 0 (removeRef 0 exShared)
   \<and> exOneLeft = run noJson (exSharedActions @ [ACancel 0]) (initState emptyConfig)
   \<and> 0 < length (queries exOneLeft)
   \<and> 1 < length (observers exOneLeft) \<and> \<not> isObserverCanceled (observers exOneLeft ! 1)
   \<and> activeQuery (observers exOneLeft ! 1) = 0
   \<and> \<not> tokenTriggered 0 exOneLeft
   \<and> tokenTriggered 0 (step noJson (ACancel 1) exOneLeft)
   \<and> liveObservers 0 exOneLeft = 1
   \<and> isLoading (resultState (queries exOneLeft ! 0))
   \<and> tokenTriggered 0 (removeRef 0 exOneLeft)"
proof -
  have r1: "exShared = run noJson exSharedActions (initState emptyConfig)"
    and r2: "exOneLeft = run noJson (exSharedActions @ [ACancel 0]) (initState emptyConfig)"
    by (simp_all add: exShared_run exOneLeft_run)
  have h: "0 < length (queries exShared)" "refCount (queries exShared ! 0) = 2"
      "0 < length (observers exShared)" "activeQuery (observers exShared ! 0) = 0"
      "isLoading (resultState (queries exShared ! 0))" "\<not> tokenTriggered 0 exShared"
    by (simp_all add: exShared_eq tokenTriggered_def initialResult_def)
  have g: "0 < length (queries exOneLeft)" "1 < length (observers exOneLeft)"
      "\<not> isObserverCanceled (observers exOneLeft ! 1)" "activeQuery (observers exOneLeft ! 1) = 0"
      "\<not> tokenTriggered 0 exOneLeft" "refCount (queries exOneLeft ! 0) - 1 \<le> 0"
    by (simp_all add: exOneLeft_eq tokenTriggered_def)
  have st: "tokenTriggered 0 (step noJson (ACancel 1) exOneLeft)"
    by (simp add: exOneLeft_eq engine_defs)
  note A = C4_token_paths [OF r1 h(1)]
  note B = C4_token_paths [OF r2 g(1)]
  from A h(2) have l2: "2 \<le> liveObservers 0 exShared" by simp
  from A l2 h have c0: "\<not> tokenTriggered 0 (obs_cancel 0 exShared)" by blast
  from A h have c1: "\<not> tokenTriggered 0 (removeRef 0 exShared)" by simp
  have d: "ATimer 0 \<noteq> ACancel 1" by simp
  from B g(5) st d have l1: "liveObservers 0 exOneLeft = 1 \<and> isLoading (resultState (queries exOneLeft ! 0))"
    by blast
  from B g l1 have c2: "tokenTriggered 0 (removeRef 0 exOneLeft)" by blast
  from r1 r2 h g st l2 c0 c1 l1 c2 show ?thesis by blast
qed

text \<open>
  C4, the timeout path. A loading query with a timeout of 10 ms and one live observer: when
  the timer fires, the abort token is triggered although no observer has been canceled and
  the reference count is still 1. \<open>removeRef\<close> is therefore not the only path that aborts
  work in flight.
\<close>

theorem C4_timer_counterexample:
  "exArmed = run noJson exArmedActions (initState emptyConfig)
   \<and> isLoading (resultState (queries exArmed ! 0))
   \<and> liveObservers 0 exArmed = 1
   \<and> refCount (queries exArmed ! 0) = 1
   \<and> \<not> tokenTriggered 0 exArmed
   \<and> tokenTriggered 0 (step noJson (ATimer 0) exArmed)
   \<and> refCount (queries (step noJson (ATimer 0) exArmed) ! 0) = 1
   \<and> observers (step noJson (ATimer 0) exArmed) = observers exArmed"
proof -
  have a: "exArmed = run noJson exArmedActions (initState emptyConfig)"
    by (simp add: exArmed_run)
  have b: "isLoading (resultState (queries exArmed ! 0))
   \<and> liveObservers 0 exArmed = 1
   \<and> refCount (queries exArmed ! 0) = 1
   \<and> \<not> tokenTriggered 0 exArmed
   \<and> tokenTriggered 0 (step noJson (ATimer 0) exArmed)
   \<and> refCount (queries (step noJson (ATimer 0) exArmed) ! 0) = 1
   \<and> observers (step noJson (ATimer 0) exArmed) = observers exArmed"
    by (simp add: exArmed_eq engine_defs liveObservers_def)
  from a b show ?thesis by (rule conjI)
qed

end
